theory Spec2Isabelle
  imports Complex_Main "HOL-Library.Multiset" "HOL-Library.Log_Nat"
begin

section \<open>Book Hub backend: data model\<close>

text \<open>
  The theory embeds the Express/Mongoose backend of the book catalogue
  (\<^verbatim>\<open>bookhub-backend/src\<close>): the schema of \<^verbatim>\<open>models/Book.js\<close>, the middleware
  \<^verbatim>\<open>protect\<close> and \<^verbatim>\<open>adminOnly\<close>, and the route handlers of \<^verbatim>\<open>routes/books.js\<close>,
  \<^verbatim>\<open>routes/auth.js\<close> and \<^verbatim>\<open>routes/admin.js\<close>.

  Conventions.
  \<^item> A JavaScript \<^verbatim>\<open>Number\<close> held in a document is an exact rational (\<open>rat\<close>). The
    arithmetic on ratings is idealised: products, sums and quotients are exact, where
    the code computes in IEEE doubles. The two differ by the rounding error of the
    doubles, which can change the direction in which \<^verbatim>\<open>Math.round\<close> resolves a quotient
    at or next to a tie \<open>x.x5\<close> (the state \<open>(1.4, 3)\<close> with the rating 2 stores 1.5 in
    the code and 1.6 here). The statements on ratings are bounds that hold for either
    direction, or concrete runs on which the two agree. The values \<^verbatim>\<open>NaN\<close> and
    \<^verbatim>\<open>Infinity\<close> are kept out of the store by the schema's casts and validators; where
    a handler can compute them the model says so explicitly.
  \<^item> The integers read from the query string by \<^verbatim>\<open>parseInt\<close> are doubles: an
    integer is rounded to 53 significant bits and overflows to \<^verbatim>\<open>Infinity\<close>.
  \<^item> A string is the list of the bytes of its UTF-8 encoding.
  \<^item> An \<^verbatim>\<open>ObjectId\<close> is a natural number, a \<^verbatim>\<open>Date\<close> is an integer (milliseconds).
  \<^item> A collection is the list of its documents in the store's natural order.
  \<^item> A handler is a function from the database (and the clock) to a response and the
    new database. A response is \<open>Inl\<close> of a failure (with its HTTP status) or \<open>Inr\<close>
    of the JSON payload.
  \<^item> Library code that is not part of the repository (MongoDB's text index, regular
    expressions, acceptance of sort keys and of a huge skip, \<^verbatim>\<open>parseFloat\<close>,
    \<^verbatim>\<open>new Date\<close>, \<^verbatim>\<open>jsonwebtoken\<close>, the e-mail validator, the password hash) is a field
    of the record \<open>externals\<close>: every theorem holds for any choice of these functions.
\<close>

type_synonym oid = nat
type_synonym date = int
type_synonym number = rat

text \<open>\<^verbatim>\<open>bookSchema\<close> of \<^verbatim>\<open>models/Book.js\<close>, with \<^verbatim>\<open>timestamps: true\<close>.\<close>

record book =
  book_id :: oid
  title :: string
  author :: string
  description :: string
  genre :: string
  coverImage :: string
  isbn :: "string option"
  publisher :: "string option"
  publishedDate :: "date option"
  pages :: "number option"
  language :: string
  rating :: number
  ratingCount :: number
  readCount :: number
  tags :: "string list"
  createdBy :: "oid option"
  createdAt :: date
  updatedAt :: date

text \<open>The \<^verbatim>\<open>enum\<close> of \<^verbatim>\<open>bookSchema.genre\<close>.\<close>

definition genres :: "string list" where
  "genres =
    [''Fiction'', ''Non-Fiction'', ''Science Fiction'', ''Fantasy'',
     ''Mystery'', ''Thriller'', ''Romance'', ''Horror'', ''Biography'',
     ''History'', ''Self-Help'', ''Science'', ''Technology'',
     ''Children'', ''Young Adult'', ''Other'']"

text \<open>
  Modelled from the spec: \<^verbatim>\<open>models/User.js\<close> is not among the sources. The spec gives a
  user an identifier, a name, a unique e-mail, a hashed password and a role; the field
  \<^verbatim>\<open>readBooks\<close> is the one \<^verbatim>\<open>routes/books.js\<close> updates with \<^verbatim>\<open>$addToSet\<close>.
\<close>

record user =
  user_id :: oid
  name :: string
  email :: string
  password :: string
  role :: string
  readBooks :: "oid list"

record db =
  users :: "user list"
  books :: "book list"

text \<open>
  The failures a handler answers with. \<open>ServerError\<close> is the \<^verbatim>\<open>catch\<close> branch
  \<^verbatim>\<open>res.status(500).json({ message: err.message })\<close>; the message of the caught exception
  comes from Mongoose or the driver and is not modelled.
\<close>

datatype failure =
    BadRequest string
  | Unauthorized string
  | Forbidden string
  | NotFound string
  | ServerError

fun status_of :: "failure \<Rightarrow> nat" where
  "status_of (BadRequest _) = 400"
| "status_of (Unauthorized _) = 401"
| "status_of (Forbidden _) = 403"
| "status_of (NotFound _) = 404"
| "status_of ServerError = 500"

text \<open>
  A number as \<^verbatim>\<open>parseInt\<close> returns it and as \<^verbatim>\<open>Math.max\<close>, \<^verbatim>\<open>Math.min\<close>, \<^verbatim>\<open>-\<close> and
  \<^verbatim>\<open>*\<close> compute with it: \<^verbatim>\<open>NaN\<close>, an infinity, or an integer that is a double.
\<close>

datatype jsnum = NaN | PosInf | NegInf | Num int

record externals =
  text_search :: "string \<Rightarrow> book \<Rightarrow> bool"
  regex_i :: "string \<Rightarrow> (string \<Rightarrow> bool) option"
  sort_key_ok :: "string \<Rightarrow> bool"
  big_skip_ok :: "jsnum \<Rightarrow> bool"
  parseFloat :: "string \<Rightarrow> number option"
  new_Date :: "string \<Rightarrow> date option"
  jwt_verify :: "string \<Rightarrow> oid option"
  jwt_sign :: "oid \<Rightarrow> string"
  isEmail :: "string \<Rightarrow> bool"
  hash_password :: "string \<Rightarrow> string"

section \<open>Store operations\<close>

text \<open>\<^verbatim>\<open>Model.findById\<close>: the first document with the identifier.\<close>

definition findById :: "book list \<Rightarrow> oid \<Rightarrow> book option" where
  "findById bs i = find (\<lambda>b. book_id b = i) bs"

definition findUserById :: "user list \<Rightarrow> oid \<Rightarrow> user option" where
  "findUserById us i = find (\<lambda>u. user_id u = i) us"

text \<open>An update of one document (\<^verbatim>\<open>updateOne\<close> on \<^verbatim>\<open>_id\<close>): the first match changes.\<close>

fun update_first :: "('a \<Rightarrow> bool) \<Rightarrow> ('a \<Rightarrow> 'a) \<Rightarrow> 'a list \<Rightarrow> 'a list" where
  "update_first p f [] = []"
| "update_first p f (x # xs) = (if p x then f x # xs else x # update_first p f xs)"

fun delete_first :: "('a \<Rightarrow> bool) \<Rightarrow> 'a list \<Rightarrow> 'a list" where
  "delete_first p [] = []"
| "delete_first p (x # xs) = (if p x then xs else x # delete_first p xs)"

section \<open>White space\<close>

text \<open>
  The white space of ECMAScript (\<^verbatim>\<open>WhiteSpace\<close> and \<^verbatim>\<open>LineTerminator\<close>), which
  \<^verbatim>\<open>parseInt\<close>, \<^verbatim>\<open>String.prototype.trim\<close> and the white-space class of regular
  expressions share, as UTF-8 sequences: U+0009 to U+000D, U+0020, U+00A0, U+1680,
  U+2000 to U+200A, U+2028, U+2029, U+202F, U+205F, U+3000 and U+FEFF.
\<close>

definition ws_seqs :: "string list" where
  "ws_seqs =
     [[CHR 0x09], [CHR 0x0A], [CHR 0x0B], [CHR 0x0C], [CHR 0x0D], [CHR 0x20],
      [CHR 0xC2, CHR 0xA0],
      [CHR 0xE1, CHR 0x9A, CHR 0x80],
      [CHR 0xE2, CHR 0x80, CHR 0x80], [CHR 0xE2, CHR 0x80, CHR 0x81],
      [CHR 0xE2, CHR 0x80, CHR 0x82], [CHR 0xE2, CHR 0x80, CHR 0x83],
      [CHR 0xE2, CHR 0x80, CHR 0x84], [CHR 0xE2, CHR 0x80, CHR 0x85],
      [CHR 0xE2, CHR 0x80, CHR 0x86], [CHR 0xE2, CHR 0x80, CHR 0x87],
      [CHR 0xE2, CHR 0x80, CHR 0x88], [CHR 0xE2, CHR 0x80, CHR 0x89],
      [CHR 0xE2, CHR 0x80, CHR 0x8A],
      [CHR 0xE2, CHR 0x80, CHR 0xA8], [CHR 0xE2, CHR 0x80, CHR 0xA9],
      [CHR 0xE2, CHR 0x80, CHR 0xAF],
      [CHR 0xE2, CHR 0x81, CHR 0x9F],
      [CHR 0xE3, CHR 0x80, CHR 0x80],
      [CHR 0xEF, CHR 0xBB, CHR 0xBF]]"

text \<open>Dropping from the front of a string every leading occurrence of the sequences.\<close>

function skip_seqs :: "string list \<Rightarrow> string \<Rightarrow> string" where
  "skip_seqs seqs s =
     (case find (\<lambda>w. w \<noteq> [] \<and> take (length w) s = w) seqs of
        None \<Rightarrow> s
      | Some w \<Rightarrow> skip_seqs seqs (drop (length w) s))"
  by pat_completeness auto
termination
proof (relation "measure (\<lambda>(seqs, s). length s)")
  show "wf (measure (\<lambda>(seqs, s). length s))" by simp
next
  fix seqs :: "string list" and s w :: string
  assume "find (\<lambda>w. w \<noteq> [] \<and> take (length w) s = w) seqs = Some w"
  then have w: "w \<noteq> []" "take (length w) s = w" by (auto simp: find_Some_iff)
  from w(2) have "length (take (length w) s) = length w" by simp
  then have "length w \<le> length s" by simp
  moreover have "0 < length w" using w(1) by simp
  ultimately have "length s - length w < length s" by linarith
  then show "((seqs, drop (length w) s), (seqs, s)) \<in> measure (\<lambda>(seqs, s). length s)"
    by simp
qed

text \<open>
  \<^verbatim>\<open>trim\<close>, of \<^verbatim>\<open>String.prototype\<close> (the schema's \<^verbatim>\<open>trim: true\<close>) and of
  \<^verbatim>\<open>validator.js\<close> (the sanitizer \<^verbatim>\<open>trim()\<close>): white space is dropped at both ends.
\<close>

definition trim :: "string \<Rightarrow> string" where
  "trim s = rev (skip_seqs (map rev ws_seqs) (rev (skip_seqs ws_seqs s)))"


section \<open>Access gate (\<^verbatim>\<open>middleware/auth.js\<close>)\<close>

text \<open>
  \<^verbatim>\<open>req.headers.authorization.split(' ')[1]\<close> for a header that starts with
  \<^verbatim>\<open>'Bearer '\<close>: the characters after the first blank, up to the next blank.
\<close>

definition bearer_token :: "string option \<Rightarrow> string option" where
  "bearer_token h =
     (case h of
        None \<Rightarrow> None
      | Some s \<Rightarrow>
          if take 7 s = ''Bearer '' then Some (takeWhile (\<lambda>c. c \<noteq> CHR '' '') (drop 7 s))
          else None)"

text \<open>
  \<^verbatim>\<open>protect\<close>. A missing or empty token is answered 401 before verification;
  \<^verbatim>\<open>jwt.verify\<close> throwing is the \<^verbatim>\<open>catch\<close> branch; the user is fetched again from the
  store.
\<close>

definition protect :: "externals \<Rightarrow> user list \<Rightarrow> string option \<Rightarrow> failure + user" where
  "protect ext us h =
     (case bearer_token h of
        None \<Rightarrow> Inl (Unauthorized ''Not authorized. No token provided.'')
      | Some t \<Rightarrow>
          if t = [] then Inl (Unauthorized ''Not authorized. No token provided.'')
          else
            (case jwt_verify ext t of
               None \<Rightarrow> Inl (Unauthorized ''Not authorized. Invalid token.'')
             | Some i \<Rightarrow>
                 (case findUserById us i of
                    None \<Rightarrow> Inl (Unauthorized ''User no longer exists.'')
                  | Some u \<Rightarrow> Inr u)))"

text \<open>\<^verbatim>\<open>adminOnly\<close>, after \<^verbatim>\<open>protect\<close>.\<close>

definition adminOnly :: "user \<Rightarrow> failure + user" where
  "adminOnly u =
     (if role u \<noteq> ''admin'' then Inl (Forbidden ''Access denied. Admin only.'') else Inr u)"

section \<open>Engagement: \<^verbatim>\<open>POST /api/books/:id/read\<close> and \<^verbatim>\<open>POST /api/books/:id/rate\<close>\<close>

text \<open>
  The route parameter \<^verbatim>\<open>:id\<close> is \<open>Some i\<close> when the string casts to an
  \<^verbatim>\<open>ObjectId\<close> and \<open>None\<close> when it does not (Mongoose then throws a
  \<^verbatim>\<open>CastError\<close>, which the handlers answer with 500).
\<close>

type_synonym id_param = "oid option"

text \<open>\<^verbatim>\<open>Math.round\<close>: the nearest integer, a tie going up.\<close>

definition Math_round :: "number \<Rightarrow> int" where
  "Math_round x = \<lfloor>x + 1 / 2\<rfloor>"

text \<open>\<^verbatim>\<open>Math.round(x * 10) / 10\<close>, on exact rationals.\<close>

definition round1 :: "number \<Rightarrow> number" where
  "round1 x = of_int (Math_round (x * 10)) / 10"

text \<open>
  The body of the rating request: \<open>Some r\<close> for the JSON number \<open>r\<close> that the client
  of the repository sends (\<^verbatim>\<open>api.post(`/books/${id}/rate`, { rating })\<close> with a
  \<^verbatim>\<open>number\<close>), \<open>None\<close> when the field is absent. The validator
  \<^verbatim>\<open>body('rating').isFloat({ min: 1, max: 5 })\<close> accepts a number exactly when it is in
  the range. A rating sent as a JSON string is not modelled: the validator reads it as
  a number too, and the handler's \<^verbatim>\<open>+\<close> then concatenates.
\<close>

definition rating_valid :: "number option \<Rightarrow> bool" where
  "rating_valid body = (case body of None \<Rightarrow> False | Some r \<Rightarrow> 1 \<le> r \<and> r \<le> 5)"

text \<open>
  The handler up to and including \<^verbatim>\<open>await Book.findById(req.params.id)\<close>: the middleware,
  the validation result, and the document read.
\<close>

definition rate_load ::
  "externals \<Rightarrow> db \<Rightarrow> string option \<Rightarrow> id_param \<Rightarrow> number option \<Rightarrow> failure + (book \<times> number)"
where
  "rate_load ext d h idp body =
     (case protect ext (users d) h of
        Inl e \<Rightarrow> Inl e
      | Inr u \<Rightarrow>
          (case body of
             None \<Rightarrow> Inl (BadRequest ''Rating must be between 1 and 5'')
           | Some r \<Rightarrow>
               if \<not> rating_valid body then Inl (BadRequest ''Rating must be between 1 and 5'')
               else
                 (case idp of
                    None \<Rightarrow> Inl ServerError
                  | Some i \<Rightarrow>
                      (case findById (books d) i of
                         None \<Rightarrow> Inl (NotFound ''Book not found.'')
                       | Some b \<Rightarrow> Inr (b, r)))))"

text \<open>
  The rest of the handler, on the document \<open>b\<close> that was read: the new count and mean,
  then \<^verbatim>\<open>await book.save()\<close>. The division by \<^verbatim>\<open>newRatingCount\<close> yields
  \<^verbatim>\<open>NaN\<close> or an infinity when the count is zero, and \<^verbatim>\<open>save\<close> validates
  \<^verbatim>\<open>min: 0, max: 5\<close> on \<^verbatim>\<open>rating\<close>: both throw, which is the 500 branch. \<^verbatim>\<open>save\<close>
  sends the modified paths only, to the stored document with the same \<^verbatim>\<open>_id\<close>, and
  throws when there is none any more: \<^verbatim>\<open>ratingCount\<close> always differs from the value
  read and is written (with \<^verbatim>\<open>updatedAt\<close>), \<^verbatim>\<open>rating\<close> is written when the new value
  differs from the value read, and is left as the store has it otherwise. The answer
  carries the values of the handler's own copy.
\<close>

definition rate_save ::
  "date \<Rightarrow> db \<Rightarrow> book \<Rightarrow> number \<Rightarrow> (failure + (number \<times> number)) \<times> db"
where
  "rate_save now d b r =
     (let newRatingCount = ratingCount b + 1 in
      if newRatingCount = 0 then (Inl ServerError, d)
      else
        let newRating = ((rating b * ratingCount b) + r) / newRatingCount;
            rating' = round1 newRating
        in
          if \<not> (0 \<le> rating' \<and> rating' \<le> 5) then (Inl ServerError, d)
          else if findById (books d) (book_id b) = None then (Inl ServerError, d)
          else
            (Inr (rating', newRatingCount),
             d\<lparr>books :=
                 update_first (\<lambda>x. book_id x = book_id b)
                   (\<lambda>x. x\<lparr>rating := (if rating' = rating b then rating x else rating'),
                          ratingCount := newRatingCount, updatedAt := now\<rparr>)
                   (books d)\<rparr>))"


text \<open>\<^verbatim>\<open>POST /api/books/:id/rate\<close>, one request served from start to end.\<close>

definition recordRating ::
  "externals \<Rightarrow> date \<Rightarrow> db \<Rightarrow> string option \<Rightarrow> id_param \<Rightarrow> number option
     \<Rightarrow> (failure + (number \<times> number)) \<times> db"
where
  "recordRating ext now d h idp body =
     (case rate_load ext d h idp body of
        Inl e \<Rightarrow> (Inl e, d)
      | Inr (b, r) \<Rightarrow> rate_save now d b r)"

text \<open>
  \<^verbatim>\<open>POST /api/books/:id/read\<close>:
  \<^verbatim>\<open>findByIdAndUpdate(id, { $inc: { readCount: 1 } }, { new: true })\<close> is one atomic
  update of the stored document; then the user's \<^verbatim>\<open>readBooks\<close> gets the identifier
  (\<^verbatim>\<open>$addToSet\<close>).
\<close>

definition inc_readCount :: "date \<Rightarrow> book list \<Rightarrow> oid \<Rightarrow> book list" where
  "inc_readCount now bs i =
     update_first (\<lambda>x. book_id x = i)
       (\<lambda>x. x\<lparr>readCount := readCount x + 1, updatedAt := now\<rparr>) bs"

definition addToSet :: "'a \<Rightarrow> 'a list \<Rightarrow> 'a list" where
  "addToSet x xs = (if x \<in> set xs then xs else xs @ [x])"

definition recordRead ::
  "externals \<Rightarrow> date \<Rightarrow> db \<Rightarrow> string option \<Rightarrow> id_param \<Rightarrow> (failure + number) \<times> db"
where
  "recordRead ext now d h idp =
     (case protect ext (users d) h of
        Inl e \<Rightarrow> (Inl e, d)
      | Inr u \<Rightarrow>
          (case idp of
             None \<Rightarrow> (Inl ServerError, d)
           | Some i \<Rightarrow>
               (case findById (books d) i of
                  None \<Rightarrow> (Inl (NotFound ''Book not found.''), d)
                | Some b \<Rightarrow>
                    (Inr (readCount b + 1),
                     d\<lparr>books := inc_readCount now (books d) i,
                       users :=
                         update_first (\<lambda>x. user_id x = user_id u)
                           (\<lambda>x. x\<lparr>readBooks := addToSet i (readBooks x)\<rparr>) (users d)\<rparr>))))"


text \<open>
  Requests served concurrently. Node runs a handler without interruption from one
  \<^verbatim>\<open>await\<close> to the next, and MongoDB applies one operation on one document atomically.
  The handler of a rating request is cut at the \<^verbatim>\<open>await\<close> between its read and its
  write of the book: it advances in two steps, \<open>rate_load\<close> (up to
  \<^verbatim>\<open>await Book.findById\<close>) and \<open>rate_save\<close> (up to \<^verbatim>\<open>await book.save()\<close>), and steps of
  other requests may run in between. (The middleware's own \<^verbatim>\<open>await\<close> on the user is
  not a separate step, so every schedule of the model is an execution of the code.) A
  schedule is the list of the indices of the requests that take the next step.
\<close>

datatype rate_task =
    Waiting "string option" id_param "number option"
  | Loaded book number
  | Finished "failure + (number \<times> number)"

fun rate_step :: "externals \<Rightarrow> date \<Rightarrow> db \<Rightarrow> rate_task \<Rightarrow> rate_task \<times> db" where
  "rate_step ext now d (Waiting h idp body) =
     (case rate_load ext d h idp body of
        Inl e \<Rightarrow> (Finished (Inl e), d)
      | Inr (b, r) \<Rightarrow> (Loaded b r, d))"
| "rate_step ext now d (Loaded b r) =
     (case rate_save now d b r of (resp, d') \<Rightarrow> (Finished resp, d'))"
| "rate_step ext now d (Finished resp) = (Finished resp, d)"

fun run_schedule ::
  "externals \<Rightarrow> date \<Rightarrow> nat list \<Rightarrow> db \<times> rate_task list \<Rightarrow> db \<times> rate_task list"
where
  "run_schedule ext now [] s = s"
| "run_schedule ext now (k # ks) (d, ts) =
     (if k < length ts then
        (case rate_step ext now d (ts ! k) of
           (t', d') \<Rightarrow> run_schedule ext now ks (d', ts[k := t']))
      else run_schedule ext now ks (d, ts))"

text \<open>\<open>n\<close> requests to mark one book as read, served one after the other.\<close>

fun read_times ::
  "externals \<Rightarrow> date \<Rightarrow> db \<Rightarrow> string option \<Rightarrow> id_param \<Rightarrow> nat \<Rightarrow> (failure + number) list \<times> db"
where
  "read_times ext now d h idp 0 = ([], d)"
| "read_times ext now d h idp (Suc n) =
     (case recordRead ext now d h idp of
        (resp, d') \<Rightarrow>
          (case read_times ext now d' h idp n of
             (resps, d'') \<Rightarrow> (resp # resps, d'')))"

section \<open>Query engine: \<^verbatim>\<open>GET /api/books\<close>\<close>

text \<open>
  The query string. A parameter is \<open>None\<close> when it is absent and \<open>Some s\<close> when it is
  given as the string \<open>s\<close> (repeated and bracketed parameters, which Express parses to
  arrays and objects, are not modelled).
\<close>

record list_query =
  q_search :: "string option"
  q_genre :: "string option"
  q_author :: "string option"
  q_language :: "string option"
  q_minRating :: "string option"
  q_sortBy :: "string option"
  q_sortOrder :: "string option"
  q_page :: "string option"
  q_limit :: "string option"
  q_publishedFrom :: "string option"
  q_publishedTo :: "string option"

text \<open>
  The double nearest to a natural number: numbers of at most 53 bits are doubles;
  a longer number keeps its 53 leading bits, rounded to nearest, a tie going to the
  even neighbour.
\<close>

definition round53 :: "int \<Rightarrow> int" where
  "round53 n =
     (if bitlen n \<le> 53 then n
      else
        let e = nat (bitlen n - 53);
            q = n div 2 ^ e;
            r = n mod 2 ^ e;
            h = 2 ^ (e - 1)
        in if h < r \<or> (r = h \<and> odd q) then (q + 1) * 2 ^ e else q * 2 ^ e)"

text \<open>
  The double of an integer; a magnitude that rounds to \<open>2 ^ 1024\<close> or more (a number
  of more than 1024 bits) is infinite.
\<close>

definition to_double :: "int \<Rightarrow> jsnum" where
  "to_double n =
     (let m = round53 \<bar>n\<bar> in
      if 1024 < bitlen m then (if n < 0 then NegInf else PosInf)
      else Num (if n < 0 then - m else m))"

text \<open>
  \<^verbatim>\<open>parseInt(s)\<close> without a radix (ECMAScript): leading white space is skipped, then a
  sign, then \<^verbatim>\<open>0x\<close> or \<^verbatim>\<open>0X\<close> selects radix 16, then the longest run of digits of the
  radix is read; no digit gives \<^verbatim>\<open>NaN\<close>, and the integer read is returned as a
  double. (ECMAScript lets an implementation replace the decimal digits after the
  twentieth by zeros; the model rounds the integer correctly, as V8 does.)
\<close>

definition digit_of :: "char \<Rightarrow> nat option" where
  "digit_of c =
     (let n = (of_char c :: nat) in
      if 48 \<le> n \<and> n \<le> 57 then Some (n - 48)
      else if 97 \<le> n \<and> n \<le> 122 then Some (n - 87)
      else if 65 \<le> n \<and> n \<le> 90 then Some (n - 55)
      else None)"

fun read_digits :: "nat \<Rightarrow> string \<Rightarrow> nat list" where
  "read_digits radix [] = []"
| "read_digits radix (c # cs) =
     (case digit_of c of
        None \<Rightarrow> []
      | Some v \<Rightarrow> if v < radix then v # read_digits radix cs else [])"

definition digits_value :: "nat \<Rightarrow> nat list \<Rightarrow> int" where
  "digits_value radix ds = foldl (\<lambda>a v. a * int radix + int v) 0 ds"

definition parseInt :: "string \<Rightarrow> jsnum" where
  "parseInt s =
     (let s1 = skip_seqs ws_seqs s;
          neg = (take 1 s1 = ''-'');
          s2 = (if take 1 s1 = ''-'' \<or> take 1 s1 = ''+'' then drop 1 s1 else s1);
          hex = (take 2 s2 = ''0x'' \<or> take 2 s2 = ''0X'');
          radix = (if hex then 16 else 10);
          s3 = (if hex then drop 2 s2 else s2);
          ds = read_digits radix s3
      in if ds = [] then NaN
         else to_double (if neg then - digits_value radix ds else digits_value radix ds))"

text \<open>\<^verbatim>\<open>Math.max(a, x)\<close> and \<^verbatim>\<open>Math.min(a, x)\<close>: \<^verbatim>\<open>NaN\<close> when an argument is.\<close>

fun Math_max :: "int \<Rightarrow> jsnum \<Rightarrow> jsnum" where
  "Math_max a NaN = NaN"
| "Math_max a PosInf = PosInf"
| "Math_max a NegInf = Num a"
| "Math_max a (Num n) = Num (max a n)"

fun Math_min :: "int \<Rightarrow> jsnum \<Rightarrow> jsnum" where
  "Math_min a NaN = NaN"
| "Math_min a PosInf = Num a"
| "Math_min a NegInf = NegInf"
| "Math_min a (Num n) = Num (min a n)"

text \<open>\<^verbatim>\<open>x - 1\<close> and \<^verbatim>\<open>x * y\<close> on these numbers, in doubles.\<close>

fun js_minus1 :: "jsnum \<Rightarrow> jsnum" where
  "js_minus1 (Num n) = to_double (n - 1)"
| "js_minus1 x = x"

fun js_times :: "jsnum \<Rightarrow> jsnum \<Rightarrow> jsnum" where
  "js_times NaN y = NaN"
| "js_times x NaN = NaN"
| "js_times (Num a) (Num b) = to_double (a * b)"
| "js_times PosInf PosInf = PosInf"
| "js_times NegInf NegInf = PosInf"
| "js_times PosInf NegInf = NegInf"
| "js_times NegInf PosInf = NegInf"
| "js_times PosInf (Num b) = (if b = 0 then NaN else if 0 < b then PosInf else NegInf)"
| "js_times NegInf (Num b) = (if b = 0 then NaN else if 0 < b then NegInf else PosInf)"
| "js_times (Num a) PosInf = (if a = 0 then NaN else if 0 < a then PosInf else NegInf)"
| "js_times (Num a) NegInf = (if a = 0 then NaN else if 0 < a then NegInf else PosInf)"

text \<open>
  \<^verbatim>\<open>page = 1, limit = 12\<close> in the destructuring are the values of absent parameters
  only; \<^verbatim>\<open>parseInt\<close> of the number is the number.
\<close>

definition page_param :: "list_query \<Rightarrow> jsnum" where
  "page_param q = (case q_page q of None \<Rightarrow> Num 1 | Some s \<Rightarrow> parseInt s)"

definition limit_param :: "list_query \<Rightarrow> jsnum" where
  "limit_param q = (case q_limit q of None \<Rightarrow> Num 12 | Some s \<Rightarrow> parseInt s)"

definition pageNum :: "list_query \<Rightarrow> jsnum" where
  "pageNum q = Math_max 1 (page_param q)"

definition limitNum :: "list_query \<Rightarrow> jsnum" where
  "limitNum q = Math_min 50 (Math_max 1 (limit_param q))"

text \<open>\<^verbatim>\<open>const skip = (pageNum - 1) * limitNum\<close>.\<close>

definition skipNum :: "list_query \<Rightarrow> jsnum" where
  "skipNum q = js_times (js_minus1 (pageNum q)) (limitNum q)"

definition sortBy :: "list_query \<Rightarrow> string" where
  "sortBy q = (case q_sortBy q of None \<Rightarrow> ''createdAt'' | Some s \<Rightarrow> s)"

definition sortOrder :: "list_query \<Rightarrow> string" where
  "sortOrder q = (case q_sortOrder q of None \<Rightarrow> ''desc'' | Some s \<Rightarrow> s)"

text \<open>\<^verbatim>\<open>if (param) ...\<close>: the test is true for a non-empty string.\<close>

definition given :: "string option \<Rightarrow> (string \<Rightarrow> bool) \<Rightarrow> bool" where
  "given p f = (case p of None \<Rightarrow> True | Some s \<Rightarrow> if s = [] then True else f s)"

text \<open>
  The filter document, as a predicate on a book. \<^verbatim>\<open>$gte\<close> and \<^verbatim>\<open>$lte\<close> on
  \<^verbatim>\<open>publishedDate\<close> match no document without the field.
\<close>

definition matches :: "externals \<Rightarrow> list_query \<Rightarrow> book \<Rightarrow> bool" where
  "matches ext q b =
     (given (q_search q) (\<lambda>s. text_search ext s b) \<and>
      given (q_genre q) (\<lambda>g. genre b = g) \<and>
      given (q_author q)
        (\<lambda>a. case regex_i ext a of None \<Rightarrow> False | Some m \<Rightarrow> m (author b)) \<and>
      given (q_language q) (\<lambda>l. language b = l) \<and>
      given (q_minRating q)
        (\<lambda>m. case parseFloat ext m of None \<Rightarrow> False | Some r \<Rightarrow> r \<le> rating b) \<and>
      given (q_publishedFrom q)
        (\<lambda>s. case (new_Date ext s, publishedDate b) of
               (Some lo, Some pd) \<Rightarrow> lo \<le> pd | _ \<Rightarrow> False) \<and>
      given (q_publishedTo q)
        (\<lambda>s. case (new_Date ext s, publishedDate b) of
               (Some hi, Some pd) \<Rightarrow> pd \<le> hi | _ \<Rightarrow> False))"

text \<open>
  A query the store refuses, which the handler answers with 500: a pattern that is no
  regular expression, \<^verbatim>\<open>parseFloat\<close> giving \<^verbatim>\<open>NaN\<close> (no \<^verbatim>\<open>Number\<close> for Mongoose's cast),
  an invalid \<^verbatim>\<open>Date\<close>, a \<^verbatim>\<open>sortBy\<close> string that the store does not take as a sort key
  (\<^verbatim>\<open>sortBy\<close> is not validated by the handler), a \<^verbatim>\<open>skip\<close> that is
  no safe integer (\<open>2 ^ 53\<close> or more, or infinite) when the driver and the store do not
  take it.
\<close>

definition big_skip :: "jsnum \<Rightarrow> bool" where
  "big_skip x = (case x of Num s \<Rightarrow> 2 ^ 53 \<le> s | PosInf \<Rightarrow> True | _ \<Rightarrow> False)"

definition store_rejects :: "externals \<Rightarrow> list_query \<Rightarrow> bool" where
  "store_rejects ext q =
     (\<not> given (q_author q) (\<lambda>a. regex_i ext a \<noteq> None) \<or>
      \<not> given (q_minRating q) (\<lambda>m. parseFloat ext m \<noteq> None) \<or>
      \<not> given (q_publishedFrom q) (\<lambda>s. new_Date ext s \<noteq> None) \<or>
      \<not> given (q_publishedTo q) (\<lambda>s. new_Date ext s \<noteq> None) \<or>
      \<not> sort_key_ok ext (sortBy q) \<or>
      (big_skip (skipNum q) \<and> \<not> big_skip_ok ext (skipNum q)))"

text \<open>
  The value of a path of a document, as MongoDB compares it when sorting: values of
  different types are ordered by type (null, numbers, strings, object identifiers,
  dates), strings byte by byte, and a missing field counts as null. The array
  \<^verbatim>\<open>tags\<close> and a path outside the schema are given no value: all documents
  compare equal on them.
\<close>

datatype bson = BNull | BNum number | BStr string | BOid oid | BDate date

fun bson_rank :: "bson \<Rightarrow> nat" where
  "bson_rank BNull = 0"
| "bson_rank (BNum _) = 1"
| "bson_rank (BStr _) = 2"
| "bson_rank (BOid _) = 3"
| "bson_rank (BDate _) = 4"

fun str_le :: "string \<Rightarrow> string \<Rightarrow> bool" where
  "str_le [] ys = True"
| "str_le (x # xs) [] = False"
| "str_le (x # xs) (y # ys) =
     ((of_char x :: nat) < of_char y \<or> (x = y \<and> str_le xs ys))"

fun bson_le :: "bson \<Rightarrow> bson \<Rightarrow> bool" where
  "bson_le (BNum a) (BNum b) = (a \<le> b)"
| "bson_le (BStr a) (BStr b) = str_le a b"
| "bson_le (BOid a) (BOid b) = (a \<le> b)"
| "bson_le (BDate a) (BDate b) = (a \<le> b)"
| "bson_le x y = (bson_rank x \<le> bson_rank y)"

definition opt_value :: "('a \<Rightarrow> bson) \<Rightarrow> 'a option \<Rightarrow> bson" where
  "opt_value f x = (case x of None \<Rightarrow> BNull | Some v \<Rightarrow> f v)"

definition field_value :: "string \<Rightarrow> book \<Rightarrow> bson" where
  "field_value f b =
     (if f = ''_id'' then BOid (book_id b)
      else if f = ''title'' then BStr (title b)
      else if f = ''author'' then BStr (author b)
      else if f = ''description'' then BStr (description b)
      else if f = ''genre'' then BStr (genre b)
      else if f = ''coverImage'' then BStr (coverImage b)
      else if f = ''isbn'' then opt_value BStr (isbn b)
      else if f = ''publisher'' then opt_value BStr (publisher b)
      else if f = ''publishedDate'' then opt_value BDate (publishedDate b)
      else if f = ''pages'' then opt_value BNum (pages b)
      else if f = ''language'' then BStr (language b)
      else if f = ''rating'' then BNum (rating b)
      else if f = ''ratingCount'' then BNum (ratingCount b)
      else if f = ''readCount'' then BNum (readCount b)
      else if f = ''createdBy'' then opt_value BOid (createdBy b)
      else if f = ''createdAt'' then BDate (createdAt b)
      else if f = ''updatedAt'' then BDate (updatedAt b)
      else BNull)"

text \<open>
  \<^verbatim>\<open>sortOptions[sortBy] = sortOrder === 'asc' ? 1 : -1\<close>: one key, ascending or
  descending. \<open>sort_le f ord a b\<close> says that \<open>a\<close> may come before \<open>b\<close>.
\<close>

definition sort_le :: "string \<Rightarrow> string \<Rightarrow> book \<Rightarrow> book \<Rightarrow> bool" where
  "sort_le f ord a b =
     (if ord = ''asc'' then bson_le (field_value f a) (field_value f b)
      else bson_le (field_value f b) (field_value f a))"

text \<open>
  What \<^verbatim>\<open>find(filter).sort(sortOptions)\<close> may return for the matching documents \<open>xs\<close>:
  the same documents, in an order that respects the sort key. The sort specification
  has no second key, and MongoDB leaves the order of documents with equal keys open.
\<close>

definition sorted_result :: "string \<Rightarrow> string \<Rightarrow> book list \<Rightarrow> book list \<Rightarrow> bool" where
  "sorted_result f ord xs ys = (mset ys = mset xs \<and> sorted_wrt (sort_le f ord) ys)"

record list_response =
  r_books :: "book list"
  r_total :: nat
  r_page :: jsnum
  r_limit :: jsnum
  r_totalPages :: jsnum

text \<open>
  \<^verbatim>\<open>Math.ceil(total / limitNum)\<close>. (The quotient is exact here; the double quotient has
  the same ceiling for a limit from 1 to 50 and a total below \<open>2 ^ 53\<close>.)
\<close>

definition total_pages :: "nat \<Rightarrow> jsnum \<Rightarrow> jsnum" where
  "total_pages t l =
     (case l of Num n \<Rightarrow> Num \<lceil>(of_nat t :: rat) / of_int n\<rceil> | _ \<Rightarrow> NaN)"

text \<open>
  The handler. \<^verbatim>\<open>find(filter).sort(sortOptions).skip(skip).limit(limitNum)\<close> returns the
  slice of the sorted documents, \<^verbatim>\<open>countDocuments(filter)\<close> counts the matching
  documents, and the answer reports \<^verbatim>\<open>pageNum\<close>, \<^verbatim>\<open>limitNum\<close> and the number of pages.
  A store that takes an infinite \<^verbatim>\<open>skip\<close> skips every document. What the store does
  when it is asked to skip or to limit by \<^verbatim>\<open>NaN\<close> is not decided by the repository:
  it may refuse (the \<^verbatim>\<open>catch\<close> branch), or read some number for it (a limit that is a
  number is the limit) and return that slice of the sorted documents, and then the
  answer carries \<^verbatim>\<open>NaN\<close> (\<^verbatim>\<open>null\<close> in JSON) for the page or the limit. Both outcomes
  are admitted.
\<close>

inductive list_books ::
  "externals \<Rightarrow> book list \<Rightarrow> list_query \<Rightarrow> failure + list_response \<Rightarrow> bool"
  for ext :: externals and bs :: "book list" and q :: list_query
where
  page:
    "limitNum q = Num l \<Longrightarrow> skipNum q = Num s \<Longrightarrow> \<not> store_rejects ext q \<Longrightarrow>
     sorted_result (sortBy q) (sortOrder q) (filter (matches ext q) bs) ys \<Longrightarrow>
     list_books ext bs q
       (Inr \<lparr>r_books = take (nat l) (drop (nat s) ys),
             r_total = length (filter (matches ext q) bs),
             r_page = pageNum q,
             r_limit = Num l,
             r_totalPages = total_pages (length (filter (matches ext q) bs)) (Num l)\<rparr>)"
| beyond:
    "limitNum q = Num l \<Longrightarrow> skipNum q = PosInf \<Longrightarrow> \<not> store_rejects ext q \<Longrightarrow>
     list_books ext bs q
       (Inr \<lparr>r_books = [],
             r_total = length (filter (matches ext q) bs),
             r_page = pageNum q,
             r_limit = Num l,
             r_totalPages = total_pages (length (filter (matches ext q) bs)) (Num l)\<rparr>)"
| not_a_number_refused:
    "pageNum q = NaN \<or> limitNum q = NaN \<Longrightarrow> list_books ext bs q (Inl ServerError)"
| not_a_number_served:
    "pageNum q = NaN \<or> limitNum q = NaN \<Longrightarrow> \<not> store_rejects ext q \<Longrightarrow>
     sorted_result (sortBy q) (sortOrder q) (filter (matches ext q) bs) ys \<Longrightarrow>
     (\<And>l. limitNum q = Num l \<Longrightarrow> n = nat l) \<Longrightarrow>
     list_books ext bs q
       (Inr \<lparr>r_books = take n (drop k ys),
             r_total = length (filter (matches ext q) bs),
             r_page = pageNum q,
             r_limit = limitNum q,
             r_totalPages = total_pages (length (filter (matches ext q) bs)) (limitNum q)\<rparr>)"
| rejected:
    "store_rejects ext q \<Longrightarrow> list_books ext bs q (Inl ServerError)"

section \<open>Registration: \<^verbatim>\<open>POST /api/auth/register\<close>\<close>

text \<open>
  The JSON body, a field being \<open>None\<close> when it is absent or no string. The validators
  of \<^verbatim>\<open>express-validator\<close> read an absent field as the empty string, and the
  sanitizer \<^verbatim>\<open>trim()\<close> replaces the field of the request by the trimmed string.
\<close>

record register_body =
  rb_name :: "string option"
  rb_email :: "string option"
  rb_password :: "string option"
  rb_role :: "string option"

definition str_of :: "string option \<Rightarrow> string" where
  "str_of x = (case x of None \<Rightarrow> [] | Some s \<Rightarrow> s)"

text \<open>
  The length \<^verbatim>\<open>isLength\<close> of \<^verbatim>\<open>validator.js\<close> compares: the number of code points
  (the bytes that do not continue a sequence) without the variation selectors U+FE0E
  and U+FE0F.
\<close>

fun selectors :: "string \<Rightarrow> nat" where
  "selectors (a # b # c # cs) =
     (if a = CHR 0xEF \<and> b = CHR 0xB8 \<and> (c = CHR 0x8E \<or> c = CHR 0x8F)
      then Suc (selectors cs) else selectors (b # c # cs))"
| "selectors cs = 0"

definition char_count :: "string \<Rightarrow> nat" where
  "char_count s =
     length (filter (\<lambda>c. \<not> (128 \<le> (of_char c :: nat) \<and> (of_char c :: nat) < 192)) s)
       - selectors s"

text \<open>The messages of the failed validators, in the order of the chain.\<close>

definition register_errors :: "externals \<Rightarrow> register_body \<Rightarrow> string list" where
  "register_errors ext body =
     (if trim (str_of (rb_name body)) = [] then [''Name is required''] else []) @
     (if \<not> isEmail ext (str_of (rb_email body)) then [''Valid email is required''] else []) @
     (if char_count (str_of (rb_password body)) < 6
      then [''Password must be at least 6 characters''] else [])"

record auth_response =
  token :: string
  au_id :: oid
  au_name :: string
  au_email :: string
  au_role :: string

text \<open>
  The handler; \<open>Inr\<close> is the answer with status 201. The route has no middleware: the
  request carries no identity. \<open>new_id\<close> is the identifier the store gives the new
  document. Modelled from the spec: \<^verbatim>\<open>User.findOne({ email })\<close> finds the user with that
  e-mail, and \<^verbatim>\<open>User.create\<close> stores the user with the password hashed.
\<close>

definition register ::
  "externals \<Rightarrow> oid \<Rightarrow> db \<Rightarrow> register_body \<Rightarrow> (failure + auth_response) \<times> db"
where
  "register ext new_id d body =
     (case register_errors ext body of
        m # _ \<Rightarrow> (Inl (BadRequest m), d)
      | [] \<Rightarrow>
          (case find (\<lambda>u. email u = str_of (rb_email body)) (users d) of
             Some existing \<Rightarrow> (Inl (BadRequest ''Email already in use.''), d)
           | None \<Rightarrow>
               let userRole = (if rb_role body = Some ''admin'' then ''admin'' else ''user'');
                   u = \<lparr>user_id = new_id,
                        name = trim (str_of (rb_name body)),
                        email = str_of (rb_email body),
                        password = hash_password ext (str_of (rb_password body)),
                        role = userRole,
                        readBooks = []\<rparr>
               in (Inr \<lparr>token = jwt_sign ext new_id, au_id = new_id, au_name = name u,
                        au_email = email u, au_role = role u\<rparr>,
                   d\<lparr>users := users d @ [u]\<rparr>)))"

section \<open>Admin routes (\<^verbatim>\<open>routes/admin.js\<close>)\<close>

text \<open>\<^verbatim>\<open>router.use(protect, adminOnly)\<close>.\<close>

definition admin_gate :: "externals \<Rightarrow> user list \<Rightarrow> string option \<Rightarrow> failure + user" where
  "admin_gate ext us h = (case protect ext us h of Inl e \<Rightarrow> Inl e | Inr u \<Rightarrow> adminOnly u)"

text \<open>
  The JSON body of a create or update request, read through the schema: a field is
  \<open>None\<close> when it is absent, and otherwise holds the value as the schema's type casts
  it (a body with a value that does not cast, or with update operators instead of
  fields, is not modelled).
\<close>

record book_body =
  b_title :: "string option"
  b_author :: "string option"
  b_description :: "string option"
  b_genre :: "string option"
  b_coverImage :: "string option"
  b_isbn :: "string option"
  b_publisher :: "string option"
  b_publishedDate :: "date option"
  b_pages :: "number option"
  b_language :: "string option"
  b_rating :: "number option"
  b_ratingCount :: "number option"
  b_readCount :: "number option"
  b_tags :: "string list option"

text \<open>\<^verbatim>\<open>bookValidation\<close>.\<close>

definition book_errors :: "book_body \<Rightarrow> string list" where
  "book_errors body =
     (if trim (str_of (b_title body)) = [] then [''Title is required''] else []) @
     (if trim (str_of (b_author body)) = [] then [''Author is required''] else []) @
     (if trim (str_of (b_description body)) = [] then [''Description is required''] else []) @
     (if str_of (b_genre body) = [] then [''Genre is required''] else [])"

text \<open>
  The validators of the schema on the paths of the body: \<^verbatim>\<open>enum\<close> on \<^verbatim>\<open>genre\<close>,
  \<^verbatim>\<open>min: 0, max: 5\<close> on \<^verbatim>\<open>rating\<close>, \<^verbatim>\<open>min: 1\<close> on \<^verbatim>\<open>pages\<close>. \<^verbatim>\<open>ratingCount\<close> and
  \<^verbatim>\<open>readCount\<close> have none.
\<close>

definition schema_valid :: "book_body \<Rightarrow> bool" where
  "schema_valid body =
     (str_of (b_genre body) \<in> set genres \<and>
      (case b_rating body of None \<Rightarrow> True | Some r \<Rightarrow> 0 \<le> r \<and> r \<le> 5) \<and>
      (case b_pages body of None \<Rightarrow> True | Some n \<Rightarrow> 1 \<le> n))"

definition pick :: "'a option \<Rightarrow> 'a \<Rightarrow> 'a" where
  "pick x dflt = (case x of None \<Rightarrow> dflt | Some v \<Rightarrow> v)"

text \<open>
  \<^verbatim>\<open>POST /api/admin/books\<close>:
  \<^verbatim>\<open>Book.create({ ...req.body, createdBy: req.user._id })\<close>. Absent paths take the
  defaults of the schema; a validation error of the schema is the 500 branch.
\<close>

definition new_book :: "date \<Rightarrow> oid \<Rightarrow> user \<Rightarrow> book_body \<Rightarrow> book" where
  "new_book now new_id u body =
     \<lparr>book_id = new_id,
      title = trim (str_of (b_title body)),
      author = trim (str_of (b_author body)),
      description = trim (str_of (b_description body)),
      genre = str_of (b_genre body),
      coverImage = pick (b_coverImage body) [],
      isbn = map_option trim (b_isbn body),
      publisher = map_option trim (b_publisher body),
      publishedDate = b_publishedDate body,
      pages = b_pages body,
      language = pick (b_language body) ''English'',
      rating = pick (b_rating body) 0,
      ratingCount = pick (b_ratingCount body) 0,
      readCount = pick (b_readCount body) 0,
      tags = pick (b_tags body) [],
      createdBy = Some (user_id u),
      createdAt = now,
      updatedAt = now\<rparr>"

definition create_book ::
  "externals \<Rightarrow> date \<Rightarrow> oid \<Rightarrow> db \<Rightarrow> string option \<Rightarrow> book_body \<Rightarrow> (failure + book) \<times> db"
where
  "create_book ext now new_id d h body =
     (case admin_gate ext (users d) h of
        Inl e \<Rightarrow> (Inl e, d)
      | Inr u \<Rightarrow>
          (case book_errors body of
             m # _ \<Rightarrow> (Inl (BadRequest m), d)
           | [] \<Rightarrow>
               if \<not> schema_valid body then (Inl ServerError, d)
               else (Inr (new_book now new_id u body),
                     d\<lparr>books := books d @ [new_book now new_id u body]\<rparr>)))"

text \<open>
  \<^verbatim>\<open>PUT /api/admin/books/:id\<close>:
  \<^verbatim>\<open>findByIdAndUpdate(id, req.body, { new: true, runValidators: true })\<close> sets the paths
  of the body and leaves the others.
\<close>

definition apply_body :: "date \<Rightarrow> book_body \<Rightarrow> book \<Rightarrow> book" where
  "apply_body now body b =
     b\<lparr>title := pick (map_option trim (b_title body)) (title b),
       author := pick (map_option trim (b_author body)) (author b),
       description := pick (map_option trim (b_description body)) (description b),
       genre := pick (b_genre body) (genre b),
       coverImage := pick (b_coverImage body) (coverImage b),
       isbn := (case b_isbn body of None \<Rightarrow> isbn b | Some s \<Rightarrow> Some (trim s)),
       publisher := (case b_publisher body of None \<Rightarrow> publisher b | Some s \<Rightarrow> Some (trim s)),
       publishedDate :=
         (case b_publishedDate body of None \<Rightarrow> publishedDate b | Some t \<Rightarrow> Some t),
       pages := (case b_pages body of None \<Rightarrow> pages b | Some n \<Rightarrow> Some n),
       language := pick (b_language body) (language b),
       rating := pick (b_rating body) (rating b),
       ratingCount := pick (b_ratingCount body) (ratingCount b),
       readCount := pick (b_readCount body) (readCount b),
       tags := pick (b_tags body) (tags b),
       updatedAt := now\<rparr>"

definition update_book ::
  "externals \<Rightarrow> date \<Rightarrow> db \<Rightarrow> string option \<Rightarrow> id_param \<Rightarrow> book_body \<Rightarrow> (failure + book) \<times> db"
where
  "update_book ext now d h idp body =
     (case admin_gate ext (users d) h of
        Inl e \<Rightarrow> (Inl e, d)
      | Inr u \<Rightarrow>
          (case book_errors body of
             m # _ \<Rightarrow> (Inl (BadRequest m), d)
           | [] \<Rightarrow>
               if \<not> schema_valid body then (Inl ServerError, d)
               else
                 (case idp of
                    None \<Rightarrow> (Inl ServerError, d)
                  | Some i \<Rightarrow>
                      (case findById (books d) i of
                         None \<Rightarrow> (Inl (NotFound ''Book not found.''), d)
                       | Some b \<Rightarrow>
                           (Inr (apply_body now body b),
                            d\<lparr>books :=
                                update_first (\<lambda>x. book_id x = i) (apply_body now body)
                                  (books d)\<rparr>)))))"

text \<open>\<^verbatim>\<open>DELETE /api/admin/books/:id\<close>: \<^verbatim>\<open>findByIdAndDelete\<close>.\<close>

definition delete_book ::
  "externals \<Rightarrow> db \<Rightarrow> string option \<Rightarrow> id_param \<Rightarrow> (failure + string) \<times> db"
where
  "delete_book ext d h idp =
     (case admin_gate ext (users d) h of
        Inl e \<Rightarrow> (Inl e, d)
      | Inr u \<Rightarrow>
          (case idp of
             None \<Rightarrow> (Inl ServerError, d)
           | Some i \<Rightarrow>
               (case findById (books d) i of
                  None \<Rightarrow> (Inl (NotFound ''Book not found.''), d)
                | Some b \<Rightarrow>
                    (Inr ''Book deleted successfully.'',
                     d\<lparr>books := delete_first (\<lambda>x. book_id x = i) (books d)\<rparr>))))"

section \<open>The mutations of the catalogue, and the predicates on the engagement fields\<close>

datatype operation =
    Create "string option" oid book_body
  | Update "string option" id_param book_body
  | Delete "string option" id_param
  | RecordRead "string option" id_param
  | RecordRating "string option" id_param "number option"

fun perform :: "externals \<Rightarrow> date \<Rightarrow> db \<Rightarrow> operation \<Rightarrow> db" where
  "perform ext now d (Create h new_id body) = snd (create_book ext now new_id d h body)"
| "perform ext now d (Update h idp body) = snd (update_book ext now d h idp body)"
| "perform ext now d (Delete h idp) = snd (delete_book ext d h idp)"
| "perform ext now d (RecordRead h idp) = snd (recordRead ext now d h idp)"
| "perform ext now d (RecordRating h idp body) = snd (recordRating ext now d h idp body)"

definition rating_in_range :: "book \<Rightarrow> bool" where
  "rating_in_range b = (0 \<le> rating b \<and> rating b \<le> 5)"

definition count_consistent :: "book \<Rightarrow> bool" where
  "count_consistent b = (0 \<le> ratingCount b \<and> (if ratingCount b = 0 then rating b = 0 else True))"

definition engagement_inv :: "book \<Rightarrow> bool" where
  "engagement_inv b = (rating_in_range b \<and> count_consistent b)"

text \<open>An operation whose body, if it has one, names neither engagement field.\<close>

fun leaves_ratings :: "operation \<Rightarrow> bool" where
  "leaves_ratings (Create h new_id body) = (b_rating body = None \<and> b_ratingCount body = None)"
| "leaves_ratings (Update h idp body) = (b_rating body = None \<and> b_ratingCount body = None)"
| "leaves_ratings _ = True"


section \<open>A small database for concrete runs\<close>

text \<open>
  Two users with the e-mail addresses of \<^verbatim>\<open>seed.js\<close>, an unrated book and a rated one;
  tokens \<^verbatim>\<open>t1\<close> and \<^verbatim>\<open>t2\<close> verify to the two users. \<^verbatim>\<open>parseFloat\<close> reads the
  strings \<^verbatim>\<open>4\<close> and \<^verbatim>\<open>3.5\<close> and no other, every non-empty string is a sort key, and the
  store takes no skip of \<open>2 ^ 53\<close> or more.
\<close>

definition demo_ext :: externals where
  "demo_ext =
     \<lparr>text_search = (\<lambda>s b. True),
      regex_i = (\<lambda>p. Some (\<lambda>s. True)),
      sort_key_ok = (\<lambda>f. f \<noteq> []),
      big_skip_ok = (\<lambda>x. False),
      parseFloat = (\<lambda>s. if s = ''4'' then Some 4 else if s = ''3.5'' then Some (7 / 2) else None),
      new_Date = (\<lambda>s. None),
      jwt_verify = (\<lambda>t. if t = ''t1'' then Some 1 else if t = ''t2'' then Some 2 else None),
      jwt_sign = (\<lambda>i. if i = 1 then ''t1'' else ''t2''),
      isEmail = (\<lambda>s. CHR ''@'' \<in> set s),
      hash_password = (\<lambda>s. rev s)\<rparr>"

definition demo_book :: book where
  "demo_book =
     \<lparr>book_id = 7, title = ''Dune'', author = ''Frank Herbert'', description = ''Sand'',
      genre = ''Science Fiction'', coverImage = [], isbn = None, publisher = None,
      publishedDate = None, pages = None, language = ''English'',
      rating = 0, ratingCount = 0, readCount = 0, tags = [], createdBy = Some 1,
      createdAt = 100, updatedAt = 100\<rparr>"

definition demo_rated :: book where
  "demo_rated =
     \<lparr>book_id = 8, title = ''Emma'', author = ''Jane Austen'', description = ''Match'',
      genre = ''Romance'', coverImage = [], isbn = None, publisher = None,
      publishedDate = None, pages = None, language = ''English'',
      rating = 9 / 2, ratingCount = 2, readCount = 5, tags = [], createdBy = Some 1,
      createdAt = 100, updatedAt = 100\<rparr>"

definition demo_db :: db where
  "demo_db =
     \<lparr>users =
        [\<lparr>user_id = 1, name = ''Admin'', email = ''admin@bookhub.com'', password = ''x'',
          role = ''admin'', readBooks = []\<rparr>,
         \<lparr>user_id = 2, name = ''Jane Reader'', email = ''user@bookhub.com'', password = ''y'',
          role = ''user'', readBooks = []\<rparr>],
      books = [demo_book, demo_rated]\<rparr>"


text \<open>
  The query without parameters. (The two books above have the same \<^verbatim>\<open>createdAt\<close>.)
\<close>

definition no_params :: list_query where
  "no_params =
     \<lparr>q_search = None, q_genre = None, q_author = None, q_language = None,
      q_minRating = None, q_sortBy = None, q_sortOrder = None, q_page = None,
      q_limit = None, q_publishedFrom = None, q_publishedTo = None\<rparr>"

text \<open>A valid body of a create or update request, without engagement fields.\<close>

definition demo_body :: book_body where
  "demo_body =
     \<lparr>b_title = Some ''Persuasion'', b_author = Some ''Jane Austen'',
      b_description = Some ''Second chances'', b_genre = Some ''Romance'',
      b_coverImage = None, b_isbn = None, b_publisher = None, b_publishedDate = None,
      b_pages = None, b_language = None, b_rating = None, b_ratingCount = None,
      b_readCount = None, b_tags = None\<rparr>"

section \<open>Lemmas on the store and on rounding\<close>

lemma find_update_first:
  assumes "\<And>x. p (f x) = p x"
  shows "find p (update_first p f xs) = map_option f (find p xs)"
  using assms by (induction xs) auto

lemma findById_update_first:
  assumes "\<And>x. book_id (f x) = book_id x"
  shows "findById (update_first (\<lambda>x. book_id x = i) f bs) j =
           (if j = i then map_option f (findById bs i) else findById bs j)"
proof (cases "j = i")
  case True
  then show ?thesis
    unfolding findById_def using assms by (simp add: find_update_first)
next
  case False
  have "find (\<lambda>b. book_id b = j) (update_first (\<lambda>x. book_id x = i) f bs) = find (\<lambda>b. book_id b = j) bs"
    using assms False by (induction bs) auto
  with False show ?thesis by (simp add: findById_def)
qed


lemma findById_mem: "findById bs i = Some b \<Longrightarrow> b \<in> set bs"
  by (auto simp: findById_def find_Some_iff)














section \<open>Rating a book\<close>




section \<open>The query engine\<close>

text \<open>
  The order the sort specification asks for is total and transitive, so the store can
  always answer \<^verbatim>\<open>find(filter).sort(sortOptions)\<close>.
\<close>

lemma str_le_total: "str_le a b \<or> str_le b a"
proof (induction a b rule: str_le.induct)
  case (3 x xs y ys)
  show ?case
  proof (cases "x = y")
    case True
    with 3 show ?thesis by auto
  next
    case False
    then have "(of_char x :: nat) < of_char y \<or> (of_char y :: nat) < of_char x"
      by (simp add: neq_iff[symmetric])
    then show ?thesis by auto
  qed
qed simp_all

lemma str_le_trans: "str_le a b \<Longrightarrow> str_le b c \<Longrightarrow> str_le a c"
proof (induction a b arbitrary: c rule: str_le.induct)
  case (1 ys)
  then show ?case by simp
next
  case (2 x xs)
  then show ?case by simp
next
  case (3 x xs y ys)
  then obtain z zs where c: "c = z # zs" by (cases c) auto
  show ?case
  proof (cases "(of_char x :: nat) < of_char y")
    case True
    then show ?thesis using 3(3) c by auto
  next
    case False
    then have *: "x = y" "str_le xs ys" using 3(2) by auto
    then show ?thesis using 3(1)[of zs] 3(3) c by auto
  qed
qed

lemma bson_le_total: "bson_le a b \<or> bson_le b a"
  using str_le_total by (cases a; cases b) auto

lemma bson_le_trans: "bson_le a b \<Longrightarrow> bson_le b c \<Longrightarrow> bson_le a c"
  by (cases a; cases b; cases c; simp; erule (1) str_le_trans)

lemma sort_le_total: "sort_le f ord a b \<or> sort_le f ord b a"
  using bson_le_total by (auto simp: sort_le_def)

lemma sort_le_trans:
  assumes "sort_le f ord a b" and "sort_le f ord b c"
  shows "sort_le f ord a c"
proof (cases "ord = ''asc''")
  case True
  then show ?thesis
    using assms bson_le_trans[of "field_value f a" "field_value f b" "field_value f c"]
    by (simp add: sort_le_def)
next
  case False
  then show ?thesis
    using assms bson_le_trans[of "field_value f c" "field_value f b" "field_value f a"]
    by (simp add: sort_le_def)
qed

lemma ex_sorted_perm:
  assumes total: "\<And>x y. P x y \<or> P y x" and trans: "\<And>x y z. P x y \<Longrightarrow> P y z \<Longrightarrow> P x z"
  shows "\<exists>ys. mset ys = mset xs \<and> sorted_wrt P ys"
proof (induction xs)
  case Nil
  then show ?case by simp
next
  case (Cons x xs)
  then obtain ys where ys: "mset ys = mset xs" "sorted_wrt P ys" by blast
  let ?l = "takeWhile (\<lambda>y. P y x) ys" and ?r = "dropWhile (\<lambda>y. P y x) ys"
  have l: "\<forall>a\<in>set ?l. P a x" by (auto dest: set_takeWhileD)
  have "sorted_wrt P (?l @ ?r)" using ys(2) by simp
  then have lr: "sorted_wrt P ?l" "sorted_wrt P ?r" "\<forall>a\<in>set ?l. \<forall>b\<in>set ?r. P a b"
    unfolding sorted_wrt_append by blast+
  have r: "\<forall>b\<in>set ?r. P x b"
  proof (cases ?r)
    case Nil
    show ?thesis unfolding Nil by simp
  next
    case (Cons b0 bs)
    have "?r \<noteq> []" unfolding Cons by simp
    from hd_dropWhile[OF this] have "\<not> P b0 x" unfolding Cons by simp
    then have xb0: "P x b0" using total by blast
    have rest: "\<forall>b\<in>set bs. P b0 b" using lr(2) unfolding Cons by simp
    show ?thesis
    proof
      fix b
      assume "b \<in> set ?r"
      then have "b = b0 \<or> b \<in> set bs" unfolding Cons by simp
      then show "P x b" using xb0 rest trans[of x b0 b] by blast
    qed
  qed
  have m: "mset ?l + mset ?r = mset ys" by (metis mset_append takeWhile_dropWhile_id)
  have "mset (?l @ x # ?r) = add_mset x (mset ?l + mset ?r)" by simp
  then have "mset (?l @ x # ?r) = mset (x # xs)" by (simp only: m ys(1) mset.simps)
  moreover have "sorted_wrt P (?l @ x # ?r)"
    unfolding sorted_wrt_append sorted_wrt.simps list.set using l r lr by blast
  ultimately show ?case by blast
qed

lemma ex_sorted_result: "\<exists>ys. sorted_result f ord xs ys"
  unfolding sorted_result_def
proof (rule ex_sorted_perm)
  show "\<And>x y. sort_le f ord x y \<or> sort_le f ord y x" by (rule sort_le_total)
  show "\<And>x y z. sort_le f ord x y \<Longrightarrow> sort_le f ord y z \<Longrightarrow> sort_le f ord x z"
    by (rule sort_le_trans)
qed

lemma sorted_result_length: "sorted_result f ord xs ys \<Longrightarrow> length ys = length xs"
  by (auto simp: sorted_result_def dest: mset_eq_length)

lemma sorted_result_set: "sorted_result f ord xs ys \<Longrightarrow> set ys = set xs"
  by (auto simp: sorted_result_def dest: mset_eq_setD)

lemma round53_id: "n < 2 ^ 53 \<Longrightarrow> round53 n = n"
  by (simp add: round53_def bitlen_le_iff_power)

lemma round53_nonneg: "0 \<le> n \<Longrightarrow> 0 \<le> round53 n"
  by (simp add: round53_def Let_def pos_imp_zdiv_nonneg_iff)

lemma round53_big:
  assumes "2 ^ 53 \<le> n"
  shows "2 ^ 53 \<le> round53 n"
proof -
  have pos: "0 < n" using assms by (rule less_le_trans[rotated]) simp
  have nb: "\<not> bitlen n \<le> 53" using assms by (simp add: bitlen_le_iff_power)
  define e where "e = nat (bitlen n - 53)"
  have e: "1 \<le> e" and b: "nat (bitlen n - 1) = 52 + e" using nb by (simp_all add: e_def)
  have "(2::int) ^ (52 + e) \<le> n" using bitlen_bounds[OF pos] unfolding b by simp
  then have "(2::int) ^ 52 * 2 ^ e \<le> n" by (simp add: power_add)
  then have "((2::int) ^ 52 * 2 ^ e) div 2 ^ e \<le> n div 2 ^ e"
    by (rule zdiv_mono1) simp
  then have q: "2 ^ 52 \<le> n div 2 ^ e" by simp
  have "(2::int) ^ 1 \<le> 2 ^ e" using e by (intro power_increasing) simp_all
  then have two: "(2::int) \<le> 2 ^ e" by simp
  have "(2::int) ^ 52 * 2 \<le> (n div 2 ^ e) * 2 ^ e"
    using q two by (intro mult_mono) simp_all
  then have lo: "2 ^ 53 \<le> (n div 2 ^ e) * 2 ^ e" by simp
  have "(n div 2 ^ e) * 2 ^ e \<le> (n div 2 ^ e + 1) * 2 ^ e"
    by (intro mult_right_mono) simp_all
  with lo have hi: "2 ^ 53 \<le> (n div 2 ^ e + 1) * 2 ^ e" by linarith
  show ?thesis using nb lo hi by (simp add: round53_def Let_def e_def)
qed

lemma to_double_small: "0 \<le> n \<Longrightarrow> n < 2 ^ 53 \<Longrightarrow> to_double n = Num n"
proof -
  assume n: "0 \<le> n" "n < 2 ^ 53"
  have "bitlen n \<le> 53" using n(2) by (simp add: bitlen_le_iff_power)
  then show ?thesis using n by (simp add: to_double_def round53_id)
qed

lemma to_double_nonneg:
  "0 \<le> n \<Longrightarrow> to_double n = PosInf \<or> (\<exists>m. to_double n = Num m \<and> 0 \<le> m)"
  using round53_nonneg[of n] by (simp add: to_double_def Let_def)

lemma to_double_big:
  "2 ^ 53 \<le> n \<Longrightarrow> to_double n = PosInf \<or> (\<exists>m. to_double n = Num m \<and> 2 ^ 53 \<le> m)"
proof -
  assume n: "2 ^ 53 \<le> n"
  then have "0 \<le> n" by (rule order_trans[rotated]) simp
  then show ?thesis using round53_big[OF n] by (simp add: to_double_def Let_def)
qed

lemma limitNum_cases: "limitNum q = NaN \<or> (\<exists>l. limitNum q = Num l \<and> 1 \<le> l \<and> l \<le> 50)"
  by (cases "limit_param q") (auto simp: limitNum_def)

lemma pageNum_cases:
  "pageNum q = NaN \<or> pageNum q = PosInf \<or> (\<exists>p. pageNum q = Num p \<and> 1 \<le> p)"
  by (cases "page_param q") (auto simp: pageNum_def)

lemma skipNum_cases:
  assumes "pageNum q \<noteq> NaN" and "limitNum q \<noteq> NaN"
  shows "skipNum q = PosInf \<or> (\<exists>s. skipNum q = Num s \<and> 0 \<le> s)"
proof -
  obtain l where l: "limitNum q = Num l" "1 \<le> l"
    using limitNum_cases[of q] assms(2) by blast
  from pageNum_cases[of q] assms(1)
  consider "pageNum q = PosInf" | p where "pageNum q = Num p" "1 \<le> p" by blast
  then show ?thesis
  proof cases
    case 1
    then show ?thesis using l by (simp add: skipNum_def)
  next
    case 2
    from to_double_nonneg[of "p - 1"] 2(2)
    consider "to_double (p - 1) = PosInf" | m where "to_double (p - 1) = Num m" "0 \<le> m"
      by auto
    then show ?thesis
    proof cases
      case 1
      then show ?thesis using 2(1) l by (simp add: skipNum_def)
    next
      case 2
      have "0 \<le> m * l" using 2(2) l(2) by simp
      from to_double_nonneg[OF this] show ?thesis
        using \<open>pageNum q = Num p\<close> 2(1) l(1) by (simp add: skipNum_def)
    qed
  qed
qed

lemma js_times_NaN: "js_times x NaN = NaN"
  by (cases x) simp_all

lemma skipNum_NaN: "(skipNum q = NaN) = (pageNum q = NaN \<or> limitNum q = NaN)"
proof (cases "pageNum q = NaN \<or> limitNum q = NaN")
  case True
  then show ?thesis by (auto simp: skipNum_def js_times_NaN)
next
  case False
  then show ?thesis using skipNum_cases[of q] by auto
qed

lemma skipNum_valid:
  assumes "pageNum q = Num p" and "1 \<le> p" and "limitNum q = Num l" and "1 \<le> l"
  shows "((p - 1) * l < 2 ^ 53 \<and> skipNum q = Num ((p - 1) * l)) \<or>
         (2 ^ 53 \<le> (p - 1) * l \<and>
          (skipNum q = PosInf \<or> (\<exists>s. skipNum q = Num s \<and> 2 ^ 53 \<le> s)))"
proof -
  have p0: "0 \<le> p - 1" using assms(2) by simp
  have le: "p - 1 \<le> (p - 1) * l" using p0 assms(4) by (simp add: mult_le_cancel_left1)
  have skip: "skipNum q = js_times (to_double (p - 1)) (Num l)"
    using assms(1,3) by (simp add: skipNum_def)
  show ?thesis
  proof (cases "(p - 1) * l < 2 ^ 53")
    case True
    then have "p - 1 < 2 ^ 53" using le by linarith
    then have "to_double (p - 1) = Num (p - 1)" using p0 by (rule to_double_small[rotated])
    moreover have "to_double ((p - 1) * l) = Num ((p - 1) * l)"
      using True p0 assms(4) by (intro to_double_small) simp_all
    ultimately show ?thesis using True skip by simp
  next
    case False
    then have big: "2 ^ 53 \<le> (p - 1) * l" by simp
    from to_double_nonneg[OF p0]
    consider "to_double (p - 1) = PosInf" | m where "to_double (p - 1) = Num m" "0 \<le> m"
      by auto
    then have "skipNum q = PosInf \<or> (\<exists>s. skipNum q = Num s \<and> 2 ^ 53 \<le> s)"
    proof cases
      case 1
      then show ?thesis using skip assms(4) by simp
    next
      case 2
      have "2 ^ 53 \<le> m * l"
      proof (cases "p - 1 < 2 ^ 53")
        case True
        then have "to_double (p - 1) = Num (p - 1)" using p0 by (rule to_double_small[rotated])
        with 2(1) have "m = p - 1" by simp
        then show ?thesis using big by simp
      next
        case False
        then have "2 ^ 53 \<le> p - 1" by simp
        from to_double_big[OF this] 2(1) have "2 ^ 53 \<le> m" by simp
        moreover have "m \<le> m * l" using 2(2) assms(4) by (simp add: mult_le_cancel_left1)
        ultimately show ?thesis by linarith
      qed
      from to_double_big[OF this] show ?thesis using skip 2(1) by simp
    qed
    with big show ?thesis by blast
  qed
qed

lemma list_books_succeeds:
  assumes "pageNum q \<noteq> NaN" and "limitNum q \<noteq> NaN" and "\<not> store_rejects ext q"
  shows "\<exists>r. list_books ext bs q (Inr r)"
proof -
  obtain ys where ys: "sorted_result (sortBy q) (sortOrder q) (filter (matches ext q) bs) ys"
    using ex_sorted_result by blast
  obtain l where l: "limitNum q = Num l" using limitNum_cases[of q] assms(2) by blast
  from skipNum_cases[OF assms(1,2)] show ?thesis
  proof
    assume "skipNum q = PosInf"
    from list_books.beyond[OF l this assms(3)] show ?thesis by blast
  next
    assume "\<exists>s. skipNum q = Num s \<and> 0 \<le> s"
    then obtain s where "skipNum q = Num s" by blast
    from list_books.page[OF l this assms(3) ys] show ?thesis by blast
  qed
qed

lemma list_books_answers: "\<exists>out. list_books ext bs q out"
proof (cases "pageNum q = NaN \<or> limitNum q = NaN")
  case True
  then show ?thesis using list_books.not_a_number_refused by blast
next
  case False
  show ?thesis
  proof (cases "store_rejects ext q")
    case True
    then show ?thesis using list_books.rejected by blast
  next
    case no: False
    from False have "pageNum q \<noteq> NaN" "limitNum q \<noteq> NaN" by simp_all
    from list_books_succeeds[OF this no] show ?thesis by blast
  qed
qed

lemma list_books_Inr:
  assumes "list_books ext bs q (Inr r)"
  shows "\<exists>ys n k. sorted_result (sortBy q) (sortOrder q) (filter (matches ext q) bs) ys \<and>
           r_books r = take n (drop k ys) \<and>
           (\<forall>l. limitNum q = Num l \<longrightarrow> n = nat l) \<and>
           (\<forall>s. skipNum q = Num s \<longrightarrow> k = nat s) \<and>
           (skipNum q = PosInf \<longrightarrow> r_books r = [])"
  using assms
proof (cases rule: list_books.cases)
  case (page l s ys)
  have "r_books r = take (nat l) (drop (nat s) ys)" using page(1) by simp
  then show ?thesis using page(2,3,5) by auto
next
  case (beyond l)
  obtain ys where ys: "sorted_result (sortBy q) (sortOrder q) (filter (matches ext q) bs) ys"
    using ex_sorted_result by blast
  have "r_books r = []" using beyond(1) by simp
  then have "sorted_result (sortBy q) (sortOrder q) (filter (matches ext q) bs) ys \<and>
           r_books r = take (nat l) (drop (length ys) ys) \<and>
           (\<forall>l'. limitNum q = Num l' \<longrightarrow> nat l = nat l') \<and>
           (\<forall>s. skipNum q = Num s \<longrightarrow> length ys = nat s) \<and>
           (skipNum q = PosInf \<longrightarrow> r_books r = [])"
    using ys beyond(2,3) by simp
  then show ?thesis by blast
next
  case (not_a_number_served ys n k)
  have nan: "skipNum q = NaN" using not_a_number_served(2) by (simp add: skipNum_NaN)
  have "r_books r = take n (drop k ys)" using not_a_number_served(1) by simp
  then show ?thesis using not_a_number_served(4,5) nan by auto
qed

lemma list_books_fields:
  assumes "list_books ext bs q (Inr r)"
  shows "r_page r = pageNum q \<and> r_limit r = limitNum q \<and>
         r_total r = length (filter (matches ext q) bs) \<and>
         r_totalPages r = total_pages (r_total r) (limitNum q) \<and>
         mset (r_books r) \<subseteq># mset (filter (matches ext q) bs) \<and>
         \<not> store_rejects ext q"
proof -
  from list_books_Inr[OF assms]
  obtain ys n k where ys: "sorted_result (sortBy q) (sortOrder q) (filter (matches ext q) bs) ys"
    and r: "r_books r = take n (drop k ys)" by blast
  have "mset (take n (drop k ys)) \<subseteq># mset ys"
    by (metis mset_subset_eq_add_left mset_subset_eq_add_right subset_mset.order_trans
        append_take_drop_id mset_append)
  moreover have "mset ys = mset (filter (matches ext q) bs)"
    using ys by (simp add: sorted_result_def)
  ultimately have sub: "mset (r_books r) \<subseteq># mset (filter (matches ext q) bs)"
    using r by simp
  from assms have "r_page r = pageNum q \<and> r_limit r = limitNum q \<and>
         r_total r = length (filter (matches ext q) bs) \<and>
         r_totalPages r = total_pages (r_total r) (limitNum q) \<and> \<not> store_rejects ext q"
    by (cases rule: list_books.cases) simp_all
  with sub show ?thesis by blast
qed

lemma list_books_Inl:
  assumes "list_books ext bs q (Inl e)"
  shows "e = ServerError \<and> (pageNum q = NaN \<or> limitNum q = NaN \<or> store_rejects ext q)"
  using assms
proof (cases rule: list_books.cases)
  case not_a_number_refused
  then show ?thesis by blast
next
  case rejected
  then show ?thesis by blast
qed

lemma rejected_query_fails:
  assumes "store_rejects ext q" and "list_books ext bs q out"
  shows "out = Inl ServerError"
proof (cases out)
  case (Inl e)
  with assms(2) show ?thesis using list_books_Inl by blast
next
  case (Inr r)
  with assms(2) have "list_books ext bs q (Inr r)" by simp
  from list_books_fields[OF this] assms(1) show ?thesis by simp
qed

lemma pageNum_valid: "page_param q = Num p \<Longrightarrow> 1 \<le> p \<Longrightarrow> pageNum q = Num p"
  by (simp add: pageNum_def)

lemma beyond_last_page:
  fixes p l :: int and t :: nat
  assumes "1 \<le> l" and "\<lceil>(of_nat t :: rat) / of_int l\<rceil> < p"
  shows "t \<le> nat ((p - 1) * l)"
proof -
  have "(of_nat t :: rat) / of_int l \<le> of_int (p - 1)"
    using assms(2) by (simp add: ceiling_less_iff)
  then have "(of_nat t :: rat) \<le> of_int (p - 1) * of_int l"
    using assms(1) by (simp add: pos_divide_le_eq)
  then have "int t \<le> (p - 1) * l"
    by (metis of_int_le_iff of_int_mult of_int_of_nat_eq)
  then show ?thesis by linarith
qed

lemma parseInt_examples:
  "parseInt ''12'' = Num 12" "parseInt '' 42abc'' = Num 42" "parseInt ''-5'' = Num (- 5)"
  "parseInt ''0x1A'' = Num 26" "parseInt [] = NaN" "parseInt ''1e3'' = Num 1"
  "parseInt ''9007199254740993'' = Num 9007199254740992"
  "parseInt [CHR 0xC2, CHR 0xA0, CHR ''7''] = Num 7"
  by code_simp+

lemma list_books_NaN:
  assumes "pageNum q = NaN \<or> limitNum q = NaN" and "list_books ext bs q out"
  shows "out = Inl ServerError \<or>
         (\<exists>r. out = Inr r \<and> r_page r = pageNum q \<and> r_limit r = limitNum q)"
proof (cases out)
  case (Inl e)
  with assms(2) show ?thesis using list_books_Inl by blast
next
  case (Inr r)
  with assms(2) have "list_books ext bs q (Inr r)" by simp
  from list_books_fields[OF this] Inr show ?thesis by simp
qed

lemma absent_page_limit_default:
  "q_page q = None \<Longrightarrow> pageNum q = Num 1" "q_limit q = None \<Longrightarrow> limitNum q = Num 12"
  by (simp_all add: pageNum_def page_param_def limitNum_def limit_param_def)

lemma limit_above_cap: "limit_param q = Num n \<Longrightarrow> 50 < n \<Longrightarrow> limitNum q = Num 50"
  by (simp add: limitNum_def)

lemma limit_clamped:
  assumes "limit_param q = Num n"
  shows "limitNum q = Num (min 50 (max 1 n))"
  using assms by (simp add: limitNum_def)

lemma given_case: "given p f = (case p of None \<Rightarrow> True | Some s \<Rightarrow> s = [] \<or> f s)"
  by (cases p) (auto simp: given_def)

lemma case_option_ex: "(case x of None \<Rightarrow> False | Some m \<Rightarrow> P m) = (\<exists>m. x = Some m \<and> P m)"
  by (cases x) simp_all

lemma matches_applied:
  "matches ext q =
     (\<lambda>b. (case q_search q of None \<Rightarrow> True | Some s \<Rightarrow> s = [] \<or> text_search ext s b) \<and>
          (case q_genre q of None \<Rightarrow> True | Some g \<Rightarrow> g = [] \<or> genre b = g) \<and>
          (case q_author q of None \<Rightarrow> True
           | Some a \<Rightarrow> a = [] \<or> (\<exists>m. regex_i ext a = Some m \<and> m (author b))) \<and>
          (case q_language q of None \<Rightarrow> True | Some x \<Rightarrow> x = [] \<or> language b = x) \<and>
          (case q_minRating q of None \<Rightarrow> True
           | Some m \<Rightarrow> m = [] \<or> (\<exists>x. parseFloat ext m = Some x \<and> x \<le> rating b)) \<and>
          (case q_publishedFrom q of None \<Rightarrow> True
           | Some s \<Rightarrow> s = [] \<or>
               (\<exists>lo pd. new_Date ext s = Some lo \<and> publishedDate b = Some pd \<and> lo \<le> pd)) \<and>
          (case q_publishedTo q of None \<Rightarrow> True
           | Some s \<Rightarrow> s = [] \<or>
               (\<exists>hi pd. new_Date ext s = Some hi \<and> publishedDate b = Some pd \<and> pd \<le> hi)))"
  unfolding matches_def given_case case_option_ex by (simp cong: option.case_cong)

lemma list_books_page_shape:
  assumes "pageNum q = Num p" and "1 \<le> p" and "limitNum q = Num l" and "1 \<le> l"
    and "\<not> store_rejects ext q" and "length bs < 2 ^ 53"
    and "list_books ext bs q out"
  shows "\<exists>r. out = Inr r \<and>
           length (r_books r) =
             min (nat l) (length (filter (matches ext q) bs) - nat ((p - 1) * l)) \<and>
           mset (r_books r) \<subseteq># mset (filter (matches ext q) bs) \<and>
           r_total r = length (filter (matches ext q) bs) \<and>
           r_totalPages r = Num \<lceil>(of_nat (r_total r) :: rat) / of_int l\<rceil> \<and>
           r_page r = Num p \<and> r_limit r = Num l \<and>
           (\<lceil>(of_nat (r_total r) :: rat) / of_int l\<rceil> < p \<longrightarrow> r_books r = [])"
proof (cases out)
  case (Inl e)
  have "pageNum q = NaN \<or> limitNum q = NaN \<or> store_rejects ext q"
    using assms(7) Inl list_books_Inl by blast
  then show ?thesis using assms(1,3,5) by simp
next
  case (Inr r)
  let ?t = "length (filter (matches ext q) bs)"
  have run: "list_books ext bs q (Inr r)" using assms(7) Inr by simp
  from list_books_fields[OF run]
  have f: "r_page r = Num p" "r_limit r = Num l" "r_total r = ?t"
    "r_totalPages r = total_pages ?t (Num l)"
    "mset (r_books r) \<subseteq># mset (filter (matches ext q) bs)"
    using assms(1,3) by simp_all
  from list_books_Inr[OF run]
  obtain ys n k where ys: "sorted_result (sortBy q) (sortOrder q) (filter (matches ext q) bs) ys"
    and bk: "r_books r = take n (drop k ys)"
    and nk: "\<And>s. skipNum q = Num s \<Longrightarrow> n = nat l \<and> k = nat s"
    and inf: "skipNum q = PosInf \<Longrightarrow> r_books r = []"
    using assms(3) by blast
  have len: "length ys = ?t" using ys by (rule sorted_result_length)
  have small: "int ?t < 2 ^ 53"
  proof -
    have "?t \<le> length bs" by simp
    then have "?t < 2 ^ 53" using assms(6) by (rule le_less_trans)
    then have "int ?t < int (2 ^ 53)" by (simp only: of_nat_less_iff)
    then show ?thesis by simp
  qed
  have books: "length (r_books r) = min (nat l) (?t - nat ((p - 1) * l))"
  proof -
    from skipNum_valid[OF assms(1-4)]
    consider "skipNum q = Num ((p - 1) * l)"
      | "2 ^ 53 \<le> (p - 1) * l" "skipNum q = PosInf"
      | s where "2 ^ 53 \<le> (p - 1) * l" "skipNum q = Num s" "2 ^ 53 \<le> s"
      by blast
    then show ?thesis
    proof cases
      case 1
      from nk[OF 1] show ?thesis using bk len by simp
    next
      case 2
      have "?t \<le> nat ((p - 1) * l)" using small 2(1) by linarith
      then show ?thesis using inf[OF 2(2)] by simp
    next
      case 3
      have a: "?t \<le> nat ((p - 1) * l)" using small 3(1) by linarith
      have b: "?t \<le> nat s" using small 3(3) by linarith
      from nk[OF 3(2)] show ?thesis using bk len a b by simp
    qed
  qed
  have pages: "r_totalPages r = Num \<lceil>(of_nat (r_total r) :: rat) / of_int l\<rceil>"
    using f(3,4) by (simp add: total_pages_def)
  have "r_books r = []" if "\<lceil>(of_nat (r_total r) :: rat) / of_int l\<rceil> < p"
  proof -
    have "?t \<le> nat ((p - 1) * l)"
      using beyond_last_page[OF assms(4), of ?t p] that f(3) by simp
    then have "length (r_books r) = 0" using books by simp
    then show ?thesis by simp
  qed
  with Inr books pages f show ?thesis by simp
qed

lemma minRating_abc_run:
  "list_books demo_ext (books demo_db)
     (no_params\<lparr>q_minRating := Some ''abc'', q_page := Some ''99''\<rparr>) (Inl ServerError)"
proof -
  have "store_rejects demo_ext (no_params\<lparr>q_minRating := Some ''abc'', q_page := Some ''99''\<rparr>)"
    by code_simp
  then show ?thesis by (rule list_books.rejected)
qed

text \<open>
  C3 as the spec states it fails. \<^verbatim>\<open>GET /api/books?minRating=abc&page=99\<close> has a valid
  page and (default) limit, and the filter value \<^verbatim>\<open>parseFloat('abc')\<close>, which is
  \<^verbatim>\<open>NaN\<close>, does not cast to the type of \<^verbatim>\<open>rating\<close>: the handler's \<^verbatim>\<open>catch\<close> answers
  with status 500, not with an empty page (\<open>rejected_query_fails\<close>: no other answer is
  possible).
\<close>

theorem list_books_rejected_counterexample:
  "page_param (no_params\<lparr>q_minRating := Some ''abc'', q_page := Some ''99''\<rparr>) = Num 99 \<and>
   limit_param (no_params\<lparr>q_minRating := Some ''abc'', q_page := Some ''99''\<rparr>) = Num 12 \<and>
   store_rejects demo_ext (no_params\<lparr>q_minRating := Some ''abc'', q_page := Some ''99''\<rparr>) \<and>
   list_books demo_ext (books demo_db)
     (no_params\<lparr>q_minRating := Some ''abc'', q_page := Some ''99''\<rparr>) (Inl ServerError) \<and>
   status_of ServerError = 500 \<and>
   \<not> list_books demo_ext (books demo_db)
       (no_params\<lparr>q_minRating := Some ''abc'', q_page := Some ''99''\<rparr>)
       (Inr \<lparr>r_books = [], r_total = 0, r_page = Num 99, r_limit = Num 12,
             r_totalPages = Num 0\<rparr>)"
proof -
  let ?q = "no_params\<lparr>q_minRating := Some ''abc'', q_page := Some ''99''\<rparr>"
  have p: "page_param ?q = Num 99" by code_simp
  have l: "limit_param ?q = Num 12" by code_simp
  have s: "store_rejects demo_ext ?q" by code_simp
  have n: "\<not> list_books demo_ext (books demo_db) ?q
       (Inr \<lparr>r_books = [], r_total = 0, r_page = Num 99, r_limit = Num 12,
             r_totalPages = Num 0\<rparr>)"
    using rejected_query_fails[OF s] by blast
  from p l s minRating_abc_run n show ?thesis by simp
qed

text \<open>
  C3, as the code has it. For a list query with valid \<^verbatim>\<open>page\<close> \<open>p \<ge> 1\<close> and \<^verbatim>\<open>limit\<close>
  \<open>l \<ge> 1\<close> (as \<^verbatim>\<open>parseInt\<close> reads them; the limit in effect is \<open>min 50 l\<close>) that the store
  accepts (filter values, sort key and \<^verbatim>\<open>skip\<close>), against a fixed store of fewer than
  \<open>2 ^ 53\<close> books, the handler answers, and every answer is a success whose page has
  exactly \<open>min lim (total - (p - 1) * lim)\<close> items for the limit \<open>lim\<close> in effect, all of
  them records matching every applied filter, whose \<^verbatim>\<open>total\<close> is the number of records
  matching every applied filter (whatever the page and the limit), whose
  \<^verbatim>\<open>totalPages\<close> is \<open>\<lceil>total / lim\<rceil>\<close>, and whose item list is empty when \<open>p\<close> exceeds
  \<^verbatim>\<open>totalPages\<close>. A filter is applied when its parameter is a non-empty string:
  text search, equality on \<^verbatim>\<open>genre\<close> and \<^verbatim>\<open>language\<close>, a case-insensitive pattern on
  \<^verbatim>\<open>author\<close>, \<^verbatim>\<open>rating\<close> at least \<^verbatim>\<open>minRating\<close>, \<^verbatim>\<open>publishedDate\<close> within the bounds.
\<close>

theorem list_books_pagination:
  assumes "page_param q = Num p" and "1 \<le> p"
    and "limit_param q = Num l" and "1 \<le> l"
    and "\<not> store_rejects ext q" and "length bs < 2 ^ 53"
  shows
    "let sel =
       (\<lambda>b. (case q_search q of None \<Rightarrow> True | Some s \<Rightarrow> s = [] \<or> text_search ext s b) \<and>
          (case q_genre q of None \<Rightarrow> True | Some g \<Rightarrow> g = [] \<or> genre b = g) \<and>
          (case q_author q of None \<Rightarrow> True
           | Some a \<Rightarrow> a = [] \<or> (\<exists>m. regex_i ext a = Some m \<and> m (author b))) \<and>
          (case q_language q of None \<Rightarrow> True | Some x \<Rightarrow> x = [] \<or> language b = x) \<and>
          (case q_minRating q of None \<Rightarrow> True
           | Some m \<Rightarrow> m = [] \<or> (\<exists>x. parseFloat ext m = Some x \<and> x \<le> rating b)) \<and>
          (case q_publishedFrom q of None \<Rightarrow> True
           | Some s \<Rightarrow> s = [] \<or>
               (\<exists>lo pd. new_Date ext s = Some lo \<and> publishedDate b = Some pd \<and> lo \<le> pd)) \<and>
          (case q_publishedTo q of None \<Rightarrow> True
           | Some s \<Rightarrow> s = [] \<or>
               (\<exists>hi pd. new_Date ext s = Some hi \<and> publishedDate b = Some pd \<and> pd \<le> hi)));
       lim = min 50 l
     in (\<exists>r. list_books ext bs q (Inr r)) \<and>
        (\<forall>out. list_books ext bs q out \<longrightarrow>
           (\<exists>r. out = Inr r \<and>
              length (r_books r) =
                min (nat lim) (length (filter sel bs) - nat ((p - 1) * lim)) \<and>
              mset (r_books r) \<subseteq># mset (filter sel bs) \<and>
              r_total r = length (filter sel bs) \<and>
              r_totalPages r = Num \<lceil>(of_nat (r_total r) :: rat) / of_int lim\<rceil> \<and>
              r_page r = Num p \<and> r_limit r = Num lim \<and>
              (\<lceil>(of_nat (r_total r) :: rat) / of_int lim\<rceil> < p \<longrightarrow> r_books r = [])))"
proof -
  have pn: "pageNum q = Num p" using assms(1,2) by (rule pageNum_valid)
  have "max 1 l = l" using assms(4) by simp
  then have ln: "limitNum q = Num (min 50 l)" using limit_clamped[OF assms(3)] by simp
  have l1: "1 \<le> min 50 l" using assms(4) by simp
  have pl: "pageNum q \<noteq> NaN" "limitNum q \<noteq> NaN" using pn ln by simp_all
  have ex: "\<exists>r. list_books ext bs q (Inr r)"
    using list_books_succeeds[OF pl assms(5)] .
  have all: "\<forall>out. list_books ext bs q out \<longrightarrow>
           (\<exists>r. out = Inr r \<and>
              length (r_books r) =
                min (nat (min 50 l))
                  (length (filter (matches ext q) bs) - nat ((p - 1) * min 50 l)) \<and>
              mset (r_books r) \<subseteq># mset (filter (matches ext q) bs) \<and>
              r_total r = length (filter (matches ext q) bs) \<and>
              r_totalPages r = Num \<lceil>(of_nat (r_total r) :: rat) / of_int (min 50 l)\<rceil> \<and>
              r_page r = Num p \<and> r_limit r = Num (min 50 l) \<and>
              (\<lceil>(of_nat (r_total r) :: rat) / of_int (min 50 l)\<rceil> < p \<longrightarrow> r_books r = []))"
    using list_books_page_shape[OF pn assms(2) ln l1 assms(5,6)] by blast
  from ex all show ?thesis unfolding Let_def matches_applied[of ext q, symmetric] by blast
qed

theorem list_books_pagination_witness:
  "page_param (no_params\<lparr>q_genre := Some ''Romance'', q_minRating := Some ''4'',
                          q_page := Some ''1'', q_limit := Some ''1''\<rparr>) = Num 1 \<and>
   limit_param (no_params\<lparr>q_genre := Some ''Romance'', q_minRating := Some ''4'',
                           q_page := Some ''1'', q_limit := Some ''1''\<rparr>) = Num 1 \<and>
   \<not> store_rejects demo_ext (no_params\<lparr>q_genre := Some ''Romance'', q_minRating := Some ''4'',
                                       q_page := Some ''1'', q_limit := Some ''1''\<rparr>) \<and>
   length (books demo_db) < 2 ^ 53 \<and>
   list_books demo_ext (books demo_db)
     (no_params\<lparr>q_genre := Some ''Romance'', q_minRating := Some ''4'',
                q_page := Some ''1'', q_limit := Some ''1''\<rparr>)
     (Inr \<lparr>r_books = [demo_rated], r_total = 1, r_page = Num 1, r_limit = Num 1,
           r_totalPages = Num 1\<rparr>) \<and>
   \<not> list_books demo_ext (books demo_db)
       (no_params\<lparr>q_genre := Some ''Romance'', q_minRating := Some ''4'',
                  q_page := Some ''1'', q_limit := Some ''1''\<rparr>)
       (Inr \<lparr>r_books = [demo_book], r_total = 2, r_page = Num 1, r_limit = Num 1,
             r_totalPages = Num 2\<rparr>)"
proof -
  let ?q = "no_params\<lparr>q_genre := Some ''Romance'', q_minRating := Some ''4'',
                      q_page := Some ''1'', q_limit := Some ''1''\<rparr>"
  let ?good = "\<lparr>r_books = [demo_rated], r_total = 1, r_page = Num 1, r_limit = Num 1,
                r_totalPages = Num 1\<rparr>"
  let ?bad = "\<lparr>r_books = [demo_book], r_total = 2, r_page = Num 1, r_limit = Num 1,
               r_totalPages = Num 2\<rparr>"
  have p: "page_param ?q = Num 1" "(1::int) \<le> 1" by code_simp+
  have l: "limit_param ?q = Num 1" "(1::int) \<le> 1" by code_simp+
  have c: "min 50 (1::int) = 1" by simp
  have f: "\<not> store_rejects demo_ext ?q" by code_simp
  have n: "length (books demo_db) < 2 ^ 53" by (simp add: demo_db_def)
  have m: "filter (matches demo_ext ?q) (books demo_db) = [demo_rated]" by code_simp
  note th = list_books_pagination[OF p l f n,
      unfolded Let_def matches_applied[of demo_ext ?q, symmetric] m c]
  from th obtain r where run: "list_books demo_ext (books demo_db) ?q (Inr r)" by blast
  from th run have r: "length (r_books r) = min (nat 1) (length [demo_rated] - nat ((1 - 1) * 1))"
    "mset (r_books r) \<subseteq># mset [demo_rated]" "r_total r = length [demo_rated]"
    "r_totalPages r = Num \<lceil>(of_nat (r_total r) :: rat) / of_int 1\<rceil>"
    "r_page r = Num 1" "r_limit r = Num 1"
    by blast+
  from r(1) obtain x where x: "r_books r = [x]" by (cases "r_books r") simp_all
  with r(2) have "x = demo_rated" by simp
  with x r(3-6) have "r = ?good" by (cases r) simp
  with run have good: "list_books demo_ext (books demo_db) ?q (Inr ?good)" by simp
  have bad: "\<not> list_books demo_ext (books demo_db) ?q (Inr ?bad)"
  proof
    assume "list_books demo_ext (books demo_db) ?q (Inr ?bad)"
    with th have "r_total ?bad = length [demo_rated]" by blast
    then show False by simp
  qed
  from p(1) l(1) f n good bad show ?thesis by blast
qed

lemma sort_le_fields:
  "sort_le ''createdAt'' ord a b =
     (if ord = ''asc'' then createdAt a \<le> createdAt b else createdAt b \<le> createdAt a)"
  "sort_le ''rating'' ord a b =
     (if ord = ''asc'' then rating a \<le> rating b else rating b \<le> rating a)"
  "sort_le ''readCount'' ord a b =
     (if ord = ''asc'' then readCount a \<le> readCount b else readCount b \<le> readCount a)"
  "sort_le ''title'' ord a b =
     (if ord = ''asc'' then str_le (title a) (title b) else str_le (title b) (title a))"
  "sort_le ''publishedDate'' ord a b =
     (if ord = ''asc''
      then (case (publishedDate a, publishedDate b) of
              (None, _) \<Rightarrow> True | (Some x, None) \<Rightarrow> False | (Some x, Some y) \<Rightarrow> x \<le> y)
      else (case (publishedDate b, publishedDate a) of
              (None, _) \<Rightarrow> True | (Some x, None) \<Rightarrow> False | (Some x, Some y) \<Rightarrow> x \<le> y))"
  by (simp_all add: sort_le_def field_value_def opt_value_def split: option.splits)

text \<open>
  C4, as the code has it. The items of every successful answer are in the order of the
  selected field and direction (descending unless \<^verbatim>\<open>sortOrder\<close> is \<^verbatim>\<open>asc\<close>; a record
  without \<^verbatim>\<open>publishedDate\<close> counts as least), and they are a run of consecutive
  records (from offset \<^verbatim>\<open>skip\<close> when it is a number, at most \<^verbatim>\<open>limit\<close> records when
  it is a number) of one ordering of all matching records that respects this order. The sort
  specification names the selected field only: nothing orders records with equal
  values of it.
\<close>

theorem list_books_sorted_slice:
  assumes "list_books ext bs q (Inr r)"
  shows "sorted_wrt (sort_le (sortBy q) (sortOrder q)) (r_books r) \<and>
         (\<exists>ys n k. mset ys = mset (filter (matches ext q) bs) \<and>
               sorted_wrt (sort_le (sortBy q) (sortOrder q)) ys \<and>
               r_books r = take n (drop k ys) \<and>
               (\<forall>l. limitNum q = Num l \<longrightarrow> n = nat l) \<and>
               (\<forall>s. skipNum q = Num s \<longrightarrow> k = nat s)) \<and>
         (sortBy q = ''createdAt'' \<longrightarrow>
            sorted_wrt (\<lambda>a b. if sortOrder q = ''asc'' then createdAt a \<le> createdAt b
                              else createdAt b \<le> createdAt a) (r_books r)) \<and>
         (sortBy q = ''rating'' \<longrightarrow>
            sorted_wrt (\<lambda>a b. if sortOrder q = ''asc'' then rating a \<le> rating b
                              else rating b \<le> rating a) (r_books r)) \<and>
         (sortBy q = ''readCount'' \<longrightarrow>
            sorted_wrt (\<lambda>a b. if sortOrder q = ''asc'' then readCount a \<le> readCount b
                              else readCount b \<le> readCount a) (r_books r)) \<and>
         (sortBy q = ''title'' \<longrightarrow>
            sorted_wrt (\<lambda>a b. if sortOrder q = ''asc'' then str_le (title a) (title b)
                              else str_le (title b) (title a)) (r_books r)) \<and>
         (sortBy q = ''publishedDate'' \<longrightarrow>
            sorted_wrt
              (\<lambda>a b. if sortOrder q = ''asc''
                 then (case (publishedDate a, publishedDate b) of
                         (None, _) \<Rightarrow> True | (Some x, None) \<Rightarrow> False
                       | (Some x, Some y) \<Rightarrow> x \<le> y)
                 else (case (publishedDate b, publishedDate a) of
                         (None, _) \<Rightarrow> True | (Some x, None) \<Rightarrow> False
                       | (Some x, Some y) \<Rightarrow> x \<le> y)) (r_books r))"
proof -
  from list_books_Inr[OF assms]
  obtain ys n k where ys: "sorted_result (sortBy q) (sortOrder q) (filter (matches ext q) bs) ys"
    and bk: "r_books r = take n (drop k ys)"
    and nk: "\<forall>l. limitNum q = Num l \<longrightarrow> n = nat l" "\<forall>s. skipNum q = Num s \<longrightarrow> k = nat s"
    by blast
  have s: "mset ys = mset (filter (matches ext q) bs)"
    "sorted_wrt (sort_le (sortBy q) (sortOrder q)) ys"
    using ys by (simp_all add: sorted_result_def)
  have "sorted_wrt (sort_le (sortBy q) (sortOrder q)) (take n (drop k ys))"
    using s(2) by (intro sorted_wrt_take sorted_wrt_drop)
  then have sorted: "sorted_wrt (sort_le (sortBy q) (sortOrder q)) (r_books r)"
    using bk by simp
  have slice: "\<exists>ys n k. mset ys = mset (filter (matches ext q) bs) \<and>
               sorted_wrt (sort_le (sortBy q) (sortOrder q)) ys \<and>
               r_books r = take n (drop k ys) \<and>
               (\<forall>l. limitNum q = Num l \<longrightarrow> n = nat l) \<and>
               (\<forall>s. skipNum q = Num s \<longrightarrow> k = nat s)"
    using s bk nk by blast
  have created: "sorted_wrt (\<lambda>a b. if sortOrder q = ''asc'' then createdAt a \<le> createdAt b
                              else createdAt b \<le> createdAt a) (r_books r)"
    if "sortBy q = ''createdAt''"
    using sorted unfolding that sort_le_fields .
  have rated: "sorted_wrt (\<lambda>a b. if sortOrder q = ''asc'' then rating a \<le> rating b
                              else rating b \<le> rating a) (r_books r)"
    if "sortBy q = ''rating''"
    using sorted unfolding that sort_le_fields .
  have reads: "sorted_wrt (\<lambda>a b. if sortOrder q = ''asc'' then readCount a \<le> readCount b
                              else readCount b \<le> readCount a) (r_books r)"
    if "sortBy q = ''readCount''"
    using sorted unfolding that sort_le_fields .
  have titles: "sorted_wrt (\<lambda>a b. if sortOrder q = ''asc'' then str_le (title a) (title b)
                              else str_le (title b) (title a)) (r_books r)"
    if "sortBy q = ''title''"
    using sorted unfolding that sort_le_fields .
  have dates: "sorted_wrt
              (\<lambda>a b. if sortOrder q = ''asc''
                 then (case (publishedDate a, publishedDate b) of
                         (None, _) \<Rightarrow> True | (Some x, None) \<Rightarrow> False
                       | (Some x, Some y) \<Rightarrow> x \<le> y)
                 else (case (publishedDate b, publishedDate a) of
                         (None, _) \<Rightarrow> True | (Some x, None) \<Rightarrow> False
                       | (Some x, Some y) \<Rightarrow> x \<le> y)) (r_books r)"
    if "sortBy q = ''publishedDate''"
    using sorted unfolding that sort_le_fields .
  from sorted slice created rated reads titles dates show ?thesis by blast
qed

lemma rating_query_run:
  "list_books demo_ext (books demo_db) (no_params\<lparr>q_sortBy := Some ''rating''\<rparr>)
     (Inr \<lparr>r_books = [demo_rated, demo_book], r_total = 2, r_page = Num 1, r_limit = Num 12,
           r_totalPages = Num 1\<rparr>)"
proof -
  let ?q = "no_params\<lparr>q_sortBy := Some ''rating''\<rparr>"
  have p: "pageNum ?q = Num 1" by code_simp
  have l: "limitNum ?q = Num 12" by code_simp
  have k: "skipNum ?q = Num 0" by code_simp
  have f: "\<not> store_rejects demo_ext ?q" by code_simp
  have m: "filter (matches demo_ext ?q) (books demo_db) = [demo_book, demo_rated]"
    by code_simp
  have s: "sorted_result (sortBy ?q) (sortOrder ?q)
             (filter (matches demo_ext ?q) (books demo_db)) [demo_rated, demo_book]"
    unfolding m sorted_result_def by (simp add: sort_le_def field_value_def sortBy_def
        sortOrder_def no_params_def demo_book_def demo_rated_def)
  have t: "length [demo_book, demo_rated] = 2" by simp
  have c: "total_pages 2 (Num 12) = Num 1" by code_simp
  have d: "take (nat 12) (drop (nat 0) [demo_rated, demo_book]) = [demo_rated, demo_book]"
    by simp
  show ?thesis using list_books.page[OF l k f s] unfolding m t c d p .
qed

theorem list_books_sorted_slice_witness:
  "list_books demo_ext (books demo_db) (no_params\<lparr>q_sortBy := Some ''rating''\<rparr>)
     (Inr \<lparr>r_books = [demo_rated, demo_book], r_total = 2, r_page = Num 1, r_limit = Num 12,
           r_totalPages = Num 1\<rparr>) \<and>
   sorted_wrt (\<lambda>a b. rating b \<le> rating a) [demo_rated, demo_book] \<and>
   rating demo_book < rating demo_rated \<and>
   \<not> list_books demo_ext (books demo_db) (no_params\<lparr>q_sortBy := Some ''rating''\<rparr>)
       (Inr \<lparr>r_books = [demo_book, demo_rated], r_total = 2, r_page = Num 1, r_limit = Num 12,
             r_totalPages = Num 1\<rparr>)"
proof -
  let ?q = "no_params\<lparr>q_sortBy := Some ''rating''\<rparr>"
  let ?good = "\<lparr>r_books = [demo_rated, demo_book], r_total = 2, r_page = Num 1,
                r_limit = Num 12, r_totalPages = Num 1\<rparr>"
  let ?bad = "\<lparr>r_books = [demo_book, demo_rated], r_total = 2, r_page = Num 1,
               r_limit = Num 12, r_totalPages = Num 1\<rparr>"
  have by_rating: "sortBy ?q = ''rating''" and desc: "sortOrder ?q \<noteq> ''asc''"
    by (simp_all add: sortBy_def sortOrder_def no_params_def)
  have lt: "rating demo_book < rating demo_rated" by (simp add: demo_book_def demo_rated_def)
  from list_books_sorted_slice[OF rating_query_run] by_rating desc
  have good: "sorted_wrt (\<lambda>a b. rating b \<le> rating a) [demo_rated, demo_book]" by simp
  have bad: "\<not> list_books demo_ext (books demo_db) ?q (Inr ?bad)"
  proof
    assume "list_books demo_ext (books demo_db) ?q (Inr ?bad)"
    from list_books_sorted_slice[OF this] by_rating desc
    have "sorted_wrt (\<lambda>a b. rating b \<le> rating a) [demo_book, demo_rated]" by simp
    then show False using lt by simp
  qed
  from rating_query_run good lt bad show ?thesis by blast
qed

text \<open>
  C4 as the spec states it fails. The two books of the small database have the same
  \<^verbatim>\<open>createdAt\<close>, so the sort specification of the default query does not order them
  (MongoDB returns documents with equal sort keys in no specified order). With
  \<^verbatim>\<open>limit=1\<close> the answer to page 1 may hold either book, the one of the greater
  identifier too, and the answer to page 2 may hold that same book: the tie is not
  broken by identifier, and the pages of two requests can repeat a record and omit the
  other.
\<close>

theorem tie_order_counterexample:
  "createdAt demo_book = createdAt demo_rated \<and> book_id demo_book < book_id demo_rated \<and>
   sort_le (sortBy no_params) (sortOrder no_params) demo_book demo_rated \<and>
   sort_le (sortBy no_params) (sortOrder no_params) demo_rated demo_book \<and>
   list_books demo_ext (books demo_db) (no_params\<lparr>q_page := Some ''1'', q_limit := Some ''1''\<rparr>)
     (Inr \<lparr>r_books = [demo_book], r_total = 2, r_page = Num 1, r_limit = Num 1,
           r_totalPages = Num 2\<rparr>) \<and>
   list_books demo_ext (books demo_db) (no_params\<lparr>q_page := Some ''1'', q_limit := Some ''1''\<rparr>)
     (Inr \<lparr>r_books = [demo_rated], r_total = 2, r_page = Num 1, r_limit = Num 1,
           r_totalPages = Num 2\<rparr>) \<and>
   list_books demo_ext (books demo_db) (no_params\<lparr>q_page := Some ''2'', q_limit := Some ''1''\<rparr>)
     (Inr \<lparr>r_books = [demo_rated], r_total = 2, r_page = Num 2, r_limit = Num 1,
           r_totalPages = Num 2\<rparr>)"
proof -
  let ?q1 = "no_params\<lparr>q_page := Some ''1'', q_limit := Some ''1''\<rparr>"
  let ?q2 = "no_params\<lparr>q_page := Some ''2'', q_limit := Some ''1''\<rparr>"
  have ids: "createdAt demo_book = createdAt demo_rated" "book_id demo_book < book_id demo_rated"
    by (simp_all add: demo_book_def demo_rated_def)
  have ties: "sort_le (sortBy no_params) (sortOrder no_params) demo_book demo_rated"
    "sort_le (sortBy no_params) (sortOrder no_params) demo_rated demo_book"
    by (simp_all add: sort_le_def field_value_def sortBy_def sortOrder_def no_params_def
        demo_book_def demo_rated_def)
  have p1: "pageNum ?q1 = Num 1" and l1: "limitNum ?q1 = Num 1" and k1: "skipNum ?q1 = Num 0"
    by code_simp+
  have p2: "pageNum ?q2 = Num 2" and l2: "limitNum ?q2 = Num 1" and k2: "skipNum ?q2 = Num 1"
    by code_simp+
  have f1: "\<not> store_rejects demo_ext ?q1" and f2: "\<not> store_rejects demo_ext ?q2"
    by code_simp+
  have m1: "filter (matches demo_ext ?q1) (books demo_db) = [demo_book, demo_rated]"
    and m2: "filter (matches demo_ext ?q2) (books demo_db) = [demo_book, demo_rated]"
    by code_simp+
  have s0: "sorted_result (sortBy ?q1) (sortOrder ?q1)
              (filter (matches demo_ext ?q1) (books demo_db)) [demo_book, demo_rated]"
    unfolding m1 sorted_result_def by (simp add: sort_le_def field_value_def sortBy_def
        sortOrder_def no_params_def demo_book_def demo_rated_def)
  have s1: "sorted_result (sortBy ?q1) (sortOrder ?q1)
              (filter (matches demo_ext ?q1) (books demo_db)) [demo_rated, demo_book]"
    unfolding m1 sorted_result_def by (simp add: sort_le_def field_value_def sortBy_def
        sortOrder_def no_params_def demo_book_def demo_rated_def)
  have s2: "sorted_result (sortBy ?q2) (sortOrder ?q2)
              (filter (matches demo_ext ?q2) (books demo_db)) [demo_book, demo_rated]"
    unfolding m2 sorted_result_def by (simp add: sort_le_def field_value_def sortBy_def
        sortOrder_def no_params_def demo_book_def demo_rated_def)
  have t: "length [demo_book, demo_rated] = 2" by simp
  have c: "total_pages 2 (Num 1) = Num 2" by code_simp
  have d0: "take (nat 1) (drop (nat 0) [demo_book, demo_rated]) = [demo_book]" by simp
  have d1: "take (nat 1) (drop (nat 0) [demo_rated, demo_book]) = [demo_rated]" by simp
  have d2: "take (nat 1) (drop (nat 1) [demo_book, demo_rated]) = [demo_rated]" by simp
  have r0: "list_books demo_ext (books demo_db) ?q1
     (Inr \<lparr>r_books = [demo_book], r_total = 2, r_page = Num 1, r_limit = Num 1,
           r_totalPages = Num 2\<rparr>)"
    using list_books.page[OF l1 k1 f1 s0] unfolding m1 t c d0 p1 .
  have r1: "list_books demo_ext (books demo_db) ?q1
     (Inr \<lparr>r_books = [demo_rated], r_total = 2, r_page = Num 1, r_limit = Num 1,
           r_totalPages = Num 2\<rparr>)"
    using list_books.page[OF l1 k1 f1 s1] unfolding m1 t c d1 p1 .
  have r2: "list_books demo_ext (books demo_db) ?q2
     (Inr \<lparr>r_books = [demo_rated], r_total = 2, r_page = Num 2, r_limit = Num 1,
           r_totalPages = Num 2\<rparr>)"
    using list_books.page[OF l2 k2 f2 s2] unfolding m2 t c d2 p2 .
  from ids ties r0 r1 r2 show ?thesis by blast
qed

lemma given_genre: "q_genre q = Some g \<Longrightarrow> g \<noteq> [] \<Longrightarrow> matches ext q b \<Longrightarrow> genre b = g"
  by (simp add: matches_def given_def)

text \<open>
  C7, as the code has it. A \<^verbatim>\<open>genre\<close> parameter outside the enumeration is not
  validated: it is one more equality in the filter. The answer is never a validation
  error; it is a success whenever \<^verbatim>\<open>page\<close>, \<^verbatim>\<open>limit\<close> and the other filters are
  accepted, and when every stored genre is in the enumeration a success has no items
  and \<^verbatim>\<open>total\<close> 0 (and \<^verbatim>\<open>totalPages\<close> 0 for a numeric limit).
\<close>

theorem unknown_genre_matches_nothing:
  assumes "q_genre q = Some g" and "g \<noteq> []" and "g \<notin> set genres"
    and "\<forall>b\<in>set bs. genre b \<in> set genres"
    and "list_books ext bs q out"
  shows "(\<forall>m. out \<noteq> Inl (BadRequest m)) \<and>
         (\<forall>r. out = Inr r \<longrightarrow>
            r_books r = [] \<and> r_total r = 0 \<and> (limitNum q \<noteq> NaN \<longrightarrow> r_totalPages r = Num 0)) \<and>
         (pageNum q \<noteq> NaN \<and> limitNum q \<noteq> NaN \<and> \<not> store_rejects ext q \<longrightarrow> (\<exists>r. out = Inr r))"
proof -
  have none: "filter (matches ext q) bs = []"
    using assms(1-4) by (auto simp: filter_empty_conv dest: given_genre)
  have a: "\<forall>m. out \<noteq> Inl (BadRequest m)"
    using assms(5) by (auto dest: list_books_Inl)
  have b: "\<forall>r. out = Inr r \<longrightarrow>
            r_books r = [] \<and> r_total r = 0 \<and> (limitNum q \<noteq> NaN \<longrightarrow> r_totalPages r = Num 0)"
  proof (intro allI impI)
    fix r
    assume "out = Inr r"
    with assms(5) have "list_books ext bs q (Inr r)" by simp
    from list_books_fields[OF this]
    have f: "r_total r = 0" "mset (r_books r) \<subseteq># {#}"
      "r_totalPages r = total_pages (r_total r) (limitNum q)"
      unfolding none by simp_all
    have "r_totalPages r = Num 0" if nn: "limitNum q \<noteq> NaN"
    proof -
      obtain l where "limitNum q = Num l" using limitNum_cases[of q] nn by blast
      then show ?thesis using f(1,3) by (simp add: total_pages_def)
    qed
    with f show "r_books r = [] \<and> r_total r = 0 \<and> (limitNum q \<noteq> NaN \<longrightarrow> r_totalPages r = Num 0)"
      by simp
  qed
  have c: "pageNum q \<noteq> NaN \<and> limitNum q \<noteq> NaN \<and> \<not> store_rejects ext q \<longrightarrow> (\<exists>r. out = Inr r)"
  proof (cases out)
    case (Inl e)
    with assms(5) show ?thesis using list_books_Inl by blast
  next
    case (Inr r)
    then show ?thesis by simp
  qed
  from a b c show ?thesis by blast
qed

lemma poetry_query_run:
  "list_books demo_ext (books demo_db) (no_params\<lparr>q_genre := Some ''Poetry''\<rparr>)
     (Inr \<lparr>r_books = [], r_total = 0, r_page = Num 1, r_limit = Num 12, r_totalPages = Num 0\<rparr>)"
proof -
  let ?q = "no_params\<lparr>q_genre := Some ''Poetry''\<rparr>"
  have p: "pageNum ?q = Num 1" and l: "limitNum ?q = Num 12" and k: "skipNum ?q = Num 0"
    by code_simp+
  have f: "\<not> store_rejects demo_ext ?q" by code_simp
  have m: "filter (matches demo_ext ?q) (books demo_db) = []" by code_simp
  have s: "sorted_result (sortBy ?q) (sortOrder ?q) (filter (matches demo_ext ?q) (books demo_db)) []"
    unfolding m sorted_result_def by simp
  have t: "length ([] :: book list) = 0" by simp
  have c: "total_pages 0 (Num 12) = Num 0" by code_simp
  have e: "take (nat 12) (drop (nat 0) ([] :: book list)) = []" by simp
  show ?thesis using list_books.page[OF l k f s] unfolding m t c e p .
qed

theorem unknown_genre_matches_nothing_witness:
  "q_genre (no_params\<lparr>q_genre := Some ''Poetry''\<rparr>) = Some ''Poetry'' \<and>
   ''Poetry'' \<notin> set genres \<and>
   list_all (\<lambda>b. genre b \<in> set genres) (books demo_db) \<and>
   list_books demo_ext (books demo_db) (no_params\<lparr>q_genre := Some ''Poetry''\<rparr>)
     (Inr \<lparr>r_books = [], r_total = 0, r_page = Num 1, r_limit = Num 12, r_totalPages = Num 0\<rparr>) \<and>
   r_total \<lparr>r_books = [], r_total = 0, r_page = Num 1, r_limit = Num 12, r_totalPages = Num 0\<rparr> = 0"
proof -
  let ?q = "no_params\<lparr>q_genre := Some ''Poetry''\<rparr>"
  let ?r = "\<lparr>r_books = [], r_total = 0, r_page = Num 1, r_limit = Num 12, r_totalPages = Num 0\<rparr>"
  have q: "q_genre ?q = Some ''Poetry''" "''Poetry'' \<noteq> []" by simp_all
  have g: "''Poetry'' \<notin> set genres" by code_simp
  have la: "list_all (\<lambda>b. genre b \<in> set genres) (books demo_db)" by code_simp
  then have bs: "\<forall>b\<in>set (books demo_db). genre b \<in> set genres" by (simp add: list_all_iff)
  from unknown_genre_matches_nothing[OF q g bs poetry_query_run]
  have "r_total ?r = 0" by blast
  with q(1) g la poetry_query_run show ?thesis by blast
qed

text \<open>
  C7 as the spec states it fails: \<^verbatim>\<open>GET /api/books?genre=Poetry\<close> is answered with
  an empty first page, not with a validation error.
\<close>

theorem unknown_genre_counterexample:
  "''Poetry'' \<notin> set genres \<and>
   list_books demo_ext (books demo_db) (no_params\<lparr>q_genre := Some ''Poetry''\<rparr>)
     (Inr \<lparr>r_books = [], r_total = 0, r_page = Num 1, r_limit = Num 12, r_totalPages = Num 0\<rparr>)"
proof -
  have "''Poetry'' \<notin> set genres" by code_simp
  with poetry_query_run show ?thesis by blast
qed

text \<open>
  C8 at the input \<^verbatim>\<open>page=abc\<close> (and \<^verbatim>\<open>limit=abc\<close>): \<^verbatim>\<open>parseInt\<close> gives \<^verbatim>\<open>NaN\<close> and
  \<^verbatim>\<open>Math.max(1, NaN)\<close> is \<^verbatim>\<open>NaN\<close>, so the store is asked to skip \<^verbatim>\<open>NaN\<close> documents:
  the request can fail with status 500, and it is not answered as page 1 with limit 12
  (an answer would carry \<^verbatim>\<open>NaN\<close> as its page, \<open>list_books_NaN\<close>). The defaults are
  taken by absent parameters only (\<open>absent_page_limit_default\<close>); a numeric limit is
  clamped (\<open>limit_clamped\<close>).
\<close>

theorem non_numeric_page_not_defaulted:
  "parseInt ''abc'' = NaN \<and>
   pageNum (no_params\<lparr>q_page := Some ''abc''\<rparr>) = NaN \<and>
   limitNum (no_params\<lparr>q_limit := Some ''abc''\<rparr>) = NaN \<and>
   list_books demo_ext (books demo_db) (no_params\<lparr>q_page := Some ''abc''\<rparr>) (Inl ServerError) \<and>
   \<not> list_books demo_ext (books demo_db) (no_params\<lparr>q_page := Some ''abc''\<rparr>)
       (Inr \<lparr>r_books = [demo_book, demo_rated], r_total = 2, r_page = Num 1, r_limit = Num 12,
             r_totalPages = Num 1\<rparr>) \<and>
   \<not> list_books demo_ext (books demo_db) (no_params\<lparr>q_limit := Some ''abc''\<rparr>)
       (Inr \<lparr>r_books = [demo_book, demo_rated], r_total = 2, r_page = Num 1, r_limit = Num 12,
             r_totalPages = Num 1\<rparr>)"
proof -
  let ?r = "\<lparr>r_books = [demo_book, demo_rated], r_total = 2, r_page = Num 1, r_limit = Num 12,
             r_totalPages = Num 1\<rparr>"
  have a: "parseInt ''abc'' = NaN" by code_simp
  have p: "pageNum (no_params\<lparr>q_page := Some ''abc''\<rparr>) = NaN" by code_simp
  have l: "limitNum (no_params\<lparr>q_limit := Some ''abc''\<rparr>) = NaN" by code_simp
  from p have p': "pageNum (no_params\<lparr>q_page := Some ''abc''\<rparr>) = NaN \<or>
                   limitNum (no_params\<lparr>q_page := Some ''abc''\<rparr>) = NaN" by simp
  from l have l': "pageNum (no_params\<lparr>q_limit := Some ''abc''\<rparr>) = NaN \<or>
                   limitNum (no_params\<lparr>q_limit := Some ''abc''\<rparr>) = NaN" by simp
  have refused: "list_books demo_ext (books demo_db) (no_params\<lparr>q_page := Some ''abc''\<rparr>)
                   (Inl ServerError)"
    using list_books.not_a_number_refused[OF p'] .
  have np: "\<not> list_books demo_ext (books demo_db) (no_params\<lparr>q_page := Some ''abc''\<rparr>) (Inr ?r)"
  proof
    assume "list_books demo_ext (books demo_db) (no_params\<lparr>q_page := Some ''abc''\<rparr>) (Inr ?r)"
    from list_books_NaN[OF p' this] p show False by simp
  qed
  have nl: "\<not> list_books demo_ext (books demo_db) (no_params\<lparr>q_limit := Some ''abc''\<rparr>) (Inr ?r)"
  proof
    assume "list_books demo_ext (books demo_db) (no_params\<lparr>q_limit := Some ''abc''\<rparr>) (Inr ?r)"
    from list_books_NaN[OF l' this] l show False by simp
  qed
  from a p l refused np nl show ?thesis by blast
qed

section \<open>Registration\<close>

lemma register_duplicate:
  assumes "u \<in> set (users d)" and "rb_email body = Some (email u)"
  shows "\<exists>m. register ext new_id d body = (Inl (BadRequest m), d)"
proof (cases "register_errors ext body")
  case Nil
  have "find (\<lambda>x. email x = str_of (rb_email body)) (users d) \<noteq> None"
    using assms by (auto simp: find_None_iff str_of_def)
  then obtain e where "find (\<lambda>x. email x = str_of (rb_email body)) (users d) = Some e"
    by blast
  with Nil show ?thesis by (simp add: register_def)
next
  case (Cons m ms)
  then show ?thesis by (simp add: register_def)
qed

text \<open>
  C9, as the code has it. A registration request whose e-mail is the e-mail of an
  existing user fails with status 400 (a validation message, or
  \<^verbatim>\<open>Email already in use.\<close>) and leaves the database unchanged.
\<close>

theorem register_duplicate_email:
  assumes "u \<in> set (users d)" and "rb_email body = Some (email u)"
  shows "\<exists>m. register ext new_id d body = (Inl (BadRequest m), d) \<and>
             status_of (BadRequest m) = 400"
  using register_duplicate[OF assms] by simp

theorem register_duplicate_email_witness:
  "users demo_db ! 0 \<in> set (users demo_db) \<and>
   rb_email \<lparr>rb_name = Some ''Eve'', rb_email = Some ''admin@bookhub.com'',
             rb_password = Some ''secret1'', rb_role = None\<rparr> = Some (email (users demo_db ! 0)) \<and>
   (\<exists>m. register demo_ext 3 demo_db
          \<lparr>rb_name = Some ''Eve'', rb_email = Some ''admin@bookhub.com'',
           rb_password = Some ''secret1'', rb_role = None\<rparr> = (Inl (BadRequest m), demo_db) \<and>
        status_of (BadRequest m) = 400)"
proof -
  let ?body = "\<lparr>rb_name = Some ''Eve'', rb_email = Some ''admin@bookhub.com'',
                rb_password = Some ''secret1'', rb_role = None\<rparr>"
  have u: "users demo_db ! 0 \<in> set (users demo_db)" by (simp add: demo_db_def)
  have e: "rb_email ?body = Some (email (users demo_db ! 0))" by (simp add: demo_db_def)
  from register_duplicate_email[OF u e, of demo_ext 3] u e show ?thesis by blast
qed

text \<open>
  C9 as the spec states it fails: the status of the answer to a duplicate e-mail is
  400, not 409.
\<close>

theorem register_duplicate_email_counterexample:
  "fst (register demo_ext 3 demo_db
          \<lparr>rb_name = Some ''Eve'', rb_email = Some ''admin@bookhub.com'',
           rb_password = Some ''secret1'', rb_role = None\<rparr>) =
     Inl (BadRequest ''Email already in use.'') \<and>
   status_of (BadRequest ''Email already in use.'') \<noteq> 409"
proof -
  have "fst (register demo_ext 3 demo_db
          \<lparr>rb_name = Some ''Eve'', rb_email = Some ''admin@bookhub.com'',
           rb_password = Some ''secret1'', rb_role = None\<rparr>) =
     Inl (BadRequest ''Email already in use.'')" by code_simp
  then show ?thesis by simp
qed

text \<open>
  C10. The handler reads \<^verbatim>\<open>role\<close> from the body of the request, which carries no
  identity: when the request passes validation and the e-mail is new, the created user
  has the role \<^verbatim>\<open>admin\<close> if the body's role is the string \<^verbatim>\<open>admin\<close> and the role
  \<^verbatim>\<open>user\<close> otherwise, the answer reports that role, and the user passes
  \<^verbatim>\<open>adminOnly\<close> exactly in the first case.
\<close>

theorem register_role_from_body:
  assumes "register_errors ext body = []"
    and "find (\<lambda>u. email u = str_of (rb_email body)) (users d) = None"
  shows "\<exists>resp u. register ext new_id d body = (Inr resp, d\<lparr>users := users d @ [u]\<rparr>) \<and>
           user_id u = new_id \<and>
           role u = (if rb_role body = Some ''admin'' then ''admin'' else ''user'') \<and>
           au_role resp = role u \<and>
           (adminOnly u = Inr u) = (rb_role body = Some ''admin'')"
proof -
  define userRole where "userRole = (if rb_role body = Some ''admin'' then ''admin'' else ''user'')"
  define u where "u = \<lparr>user_id = new_id, name = trim (str_of (rb_name body)),
      email = str_of (rb_email body),
      password = hash_password ext (str_of (rb_password body)),
      role = userRole, readBooks = []\<rparr>"
  define resp where "resp = \<lparr>token = jwt_sign ext new_id, au_id = new_id, au_name = name u,
      au_email = email u, au_role = role u\<rparr>"
  have run: "register ext new_id d body = (Inr resp, d\<lparr>users := users d @ [u]\<rparr>)"
    using assms by (simp add: register_def Let_def resp_def u_def userRole_def)
  have "user_id u = new_id" "role u = userRole" "au_role resp = role u"
    by (simp_all add: u_def resp_def)
  moreover have "(adminOnly u = Inr u) = (rb_role body = Some ''admin'')"
    by (simp add: adminOnly_def u_def userRole_def)
  ultimately show ?thesis using run unfolding userRole_def by blast
qed

theorem register_role_from_body_witness:
  "register_errors demo_ext
     \<lparr>rb_name = Some ''Eve'', rb_email = Some ''eve@example.org'',
      rb_password = Some ''secret1'', rb_role = Some ''admin''\<rparr> = [] \<and>
   find (\<lambda>u. email u = ''eve@example.org'') (users demo_db) = None \<and>
   (\<exists>resp u. register demo_ext 3 demo_db
          \<lparr>rb_name = Some ''Eve'', rb_email = Some ''eve@example.org'',
           rb_password = Some ''secret1'', rb_role = Some ''admin''\<rparr> =
            (Inr resp, demo_db\<lparr>users := users demo_db @ [u]\<rparr>) \<and>
        role u = ''admin'' \<and> au_role resp = ''admin'' \<and> adminOnly u = Inr u)"
proof -
  let ?body = "\<lparr>rb_name = Some ''Eve'', rb_email = Some ''eve@example.org'',
                rb_password = Some ''secret1'', rb_role = Some ''admin''\<rparr>"
  have v: "register_errors demo_ext ?body = []" by code_simp
  have n: "find (\<lambda>u. email u = ''eve@example.org'') (users demo_db) = None" by code_simp
  then have n': "find (\<lambda>u. email u = str_of (rb_email ?body)) (users demo_db) = None"
    by (simp add: str_of_def)
  from register_role_from_body[OF v n', of 3]
  obtain resp u where "register demo_ext 3 demo_db ?body =
            (Inr resp, demo_db\<lparr>users := users demo_db @ [u]\<rparr>)"
    "role u = (if rb_role ?body = Some ''admin'' then ''admin'' else ''user'')"
    "au_role resp = role u" "(adminOnly u = Inr u) = (rb_role ?body = Some ''admin'')"
    by blast
  then have "register demo_ext 3 demo_db ?body =
            (Inr resp, demo_db\<lparr>users := users demo_db @ [u]\<rparr>) \<and>
        role u = ''admin'' \<and> au_role resp = ''admin'' \<and> adminOnly u = Inr u"
    by simp
  with v n show ?thesis by blast
qed

section \<open>The engagement fields under the mutations\<close>

lemma pred_update_first:
  assumes "\<forall>x\<in>set xs. Q x" and "\<forall>x\<in>set xs. p x \<longrightarrow> Q (f x)"
  shows "\<forall>x\<in>set (update_first p f xs). Q x"
  using assms by (induction xs) auto

lemma pred_delete_first:
  assumes "\<forall>x\<in>set xs. Q x"
  shows "\<forall>x\<in>set (delete_first p xs). Q x"
  using assms by (induction xs) auto

lemma recordRating_books:
  "books (snd (recordRating ext now d h idp body)) = books d \<or>
   (\<exists>b c. b \<in> set (books d) \<and> 0 \<le> c \<and> c \<le> 5 \<and>
      books (snd (recordRating ext now d h idp body)) =
        update_first (\<lambda>x. book_id x = book_id b)
          (\<lambda>x. x\<lparr>rating := (if c = rating b then rating x else c),
                 ratingCount := ratingCount b + 1, updatedAt := now\<rparr>) (books d))"
proof (cases "rate_load ext d h idp body")
  case (Inl e)
  then show ?thesis by (simp add: recordRating_def)
next
  case (Inr p)
  obtain b r where p: "p = (b, r)" by (cases p)
  have "b \<in> set (books d)"
    using Inr p
    by (auto simp: rate_load_def split: sum.splits option.splits if_splits dest: findById_mem)
  then show ?thesis
    using Inr p by (auto simp: recordRating_def rate_save_def Let_def)
qed

lemma perform_rating_in_range:
  assumes "\<forall>b\<in>set (books d). rating_in_range b"
  shows "\<forall>b\<in>set (books (perform ext now d op)). rating_in_range b"
proof (cases op)
  case (Create h new_id body)
  have "rating_in_range (new_book now new_id u body)" if "schema_valid body" for u
    using that by (auto simp: rating_in_range_def new_book_def schema_valid_def pick_def
        split: option.splits)
  then show ?thesis
    using assms Create
    by (auto simp: create_book_def split: sum.splits list.splits if_splits)
next
  case (Update h idp body)
  have "rating_in_range (apply_body now body b)"
    if "schema_valid body" "rating_in_range b" for b
    using that by (auto simp: rating_in_range_def apply_body_def schema_valid_def pick_def
        split: option.splits)
  then have "\<forall>x\<in>set (update_first p (apply_body now body) (books d)). rating_in_range x"
    if "schema_valid body" for p
    using that assms by (intro pred_update_first) auto
  then show ?thesis
    using assms Update
    by (auto simp: update_book_def split: sum.splits list.splits if_splits option.splits)
next
  case (Delete h idp)
  have "\<forall>x\<in>set (delete_first p (books d)). rating_in_range x" for p
    using assms by (rule pred_delete_first)
  then show ?thesis
    using assms Delete
    by (auto simp: delete_book_def split: sum.splits option.splits)
next
  case (RecordRead h idp)
  have "\<forall>x\<in>set (inc_readCount now (books d) i). rating_in_range x" for i
    unfolding inc_readCount_def using assms
    by (intro pred_update_first) (auto simp: rating_in_range_def)
  then show ?thesis
    using assms RecordRead
    by (auto simp: recordRead_def split: sum.splits option.splits)
next
  case (RecordRating h idp body)
  from recordRating_books[of ext now d h idp body] show ?thesis
  proof
    assume "books (snd (recordRating ext now d h idp body)) = books d"
    then show ?thesis using assms RecordRating by simp
  next
    assume "\<exists>b c. b \<in> set (books d) \<and> 0 \<le> c \<and> c \<le> 5 \<and>
      books (snd (recordRating ext now d h idp body)) =
        update_first (\<lambda>x. book_id x = book_id b)
          (\<lambda>x. x\<lparr>rating := (if c = rating b then rating x else c),
                 ratingCount := ratingCount b + 1, updatedAt := now\<rparr>) (books d)"
    then obtain b c where br: "b \<in> set (books d)" "0 \<le> c" "c \<le> 5"
      "books (snd (recordRating ext now d h idp body)) =
        update_first (\<lambda>x. book_id x = book_id b)
          (\<lambda>x. x\<lparr>rating := (if c = rating b then rating x else c),
                 ratingCount := ratingCount b + 1, updatedAt := now\<rparr>) (books d)"
      by blast
    have "\<forall>x\<in>set (books (snd (recordRating ext now d h idp body))). rating_in_range x"
      unfolding br(4) using assms br(2,3)
      by (intro pred_update_first) (auto simp: rating_in_range_def)
    then show ?thesis using RecordRating by simp
  qed
qed

lemma perform_count_consistent:
  assumes "leaves_ratings op" and "\<forall>b\<in>set (books d). count_consistent b"
  shows "\<forall>b\<in>set (books (perform ext now d op)). count_consistent b"
proof (cases op)
  case (Create h new_id body)
  have "count_consistent (new_book now new_id u body)" for u
    using assms(1) Create by (simp add: count_consistent_def new_book_def pick_def)
  then show ?thesis
    using assms(2) Create
    by (auto simp: create_book_def split: sum.splits list.splits if_splits)
next
  case (Update h idp body)
  have "count_consistent (apply_body now body b)" if "count_consistent b" for b
    using that assms(1) Update by (simp add: count_consistent_def apply_body_def pick_def)
  then have "\<forall>x\<in>set (update_first p (apply_body now body) (books d)). count_consistent x" for p
    using assms(2) by (intro pred_update_first) auto
  then show ?thesis
    using assms(2) Update
    by (auto simp: update_book_def split: sum.splits list.splits if_splits option.splits)
next
  case (Delete h idp)
  have "\<forall>x\<in>set (delete_first p (books d)). count_consistent x" for p
    using assms(2) by (rule pred_delete_first)
  then show ?thesis
    using assms(2) Delete
    by (auto simp: delete_book_def split: sum.splits option.splits)
next
  case (RecordRead h idp)
  have "\<forall>x\<in>set (inc_readCount now (books d) i). count_consistent x" for i
    unfolding inc_readCount_def using assms(2)
    by (intro pred_update_first) (auto simp: count_consistent_def)
  then show ?thesis
    using assms(2) RecordRead
    by (auto simp: recordRead_def split: sum.splits option.splits)
next
  case (RecordRating h idp body)
  from recordRating_books[of ext now d h idp body] show ?thesis
  proof
    assume "books (snd (recordRating ext now d h idp body)) = books d"
    then show ?thesis using assms(2) RecordRating by simp
  next
    assume "\<exists>b c. b \<in> set (books d) \<and> 0 \<le> c \<and> c \<le> 5 \<and>
      books (snd (recordRating ext now d h idp body)) =
        update_first (\<lambda>x. book_id x = book_id b)
          (\<lambda>x. x\<lparr>rating := (if c = rating b then rating x else c),
                 ratingCount := ratingCount b + 1, updatedAt := now\<rparr>) (books d)"
    then obtain b c where br: "b \<in> set (books d)"
      "books (snd (recordRating ext now d h idp body)) =
        update_first (\<lambda>x. book_id x = book_id b)
          (\<lambda>x. x\<lparr>rating := (if c = rating b then rating x else c),
                 ratingCount := ratingCount b + 1, updatedAt := now\<rparr>) (books d)"
      by blast
    have "0 \<le> ratingCount b" using assms(2) br(1) by (auto simp: count_consistent_def)
    then have pos: "0 \<le> ratingCount b + 1" "ratingCount b + 1 \<noteq> 0" by linarith+
    have "\<forall>x\<in>set (books (snd (recordRating ext now d h idp body))). count_consistent x"
      unfolding br(2) using assms(2) pos
      by (intro pred_update_first) (auto simp: count_consistent_def)
    then show ?thesis using RecordRating by simp
  qed
qed

text \<open>
  C6, as the code has it, for request bodies of plain schema fields (\<open>book_body\<close>).
  \<open>0 \<le> rating \<le> 5\<close> holds for every book at creation and is
  preserved by create, update, delete, \<^verbatim>\<open>recordRead\<close> and \<^verbatim>\<open>recordRating\<close> (the schema
  validates the path on every write). \<open>ratingCount \<ge> 0\<close> and
  \<open>ratingCount = 0 \<Longrightarrow> rating = 0\<close> are preserved by delete, \<^verbatim>\<open>recordRead\<close> and
  \<^verbatim>\<open>recordRating\<close>, and by a create or update whose body names neither \<^verbatim>\<open>rating\<close> nor
  \<^verbatim>\<open>ratingCount\<close>.
\<close>

theorem engagement_fields_preserved:
  assumes "\<forall>b\<in>set (books d). rating_in_range b"
  shows "(\<forall>b\<in>set (books (perform ext now d op)). rating_in_range b) \<and>
         (leaves_ratings op \<longrightarrow> (\<forall>b\<in>set (books d). count_consistent b) \<longrightarrow>
            (\<forall>b\<in>set (books (perform ext now d op)). engagement_inv b))"
  using perform_rating_in_range[OF assms, of ext now op]
    perform_count_consistent[of op d ext now]
  by (auto simp: engagement_inv_def)

theorem engagement_fields_preserved_witness:
  "list_all rating_in_range (books demo_db) \<and>
   leaves_ratings (RecordRating (Some ''Bearer t2'') (Some 8) (Some 4)) \<and>
   list_all count_consistent (books demo_db) \<and>
   list_all engagement_inv
     (books (perform demo_ext 200 demo_db (RecordRating (Some ''Bearer t2'') (Some 8) (Some 4)))) \<and>
   books (perform demo_ext 200 demo_db (RecordRating (Some ''Bearer t2'') (Some 8) (Some 4)))
     \<noteq> books demo_db"
proof -
  let ?op = "RecordRating (Some ''Bearer t2'') (Some 8) (Some 4)"
  have a: "list_all rating_in_range (books demo_db)" by code_simp
  have b: "list_all count_consistent (books demo_db)" by code_simp
  have c: "leaves_ratings ?op" by simp
  have d: "books (perform demo_ext 200 demo_db ?op) \<noteq> books demo_db" by code_simp
  from a have a': "\<forall>b\<in>set (books demo_db). rating_in_range b" by (simp add: list_all_iff)
  from b have b': "\<forall>b\<in>set (books demo_db). count_consistent b" by (simp add: list_all_iff)
  from engagement_fields_preserved[OF a', of demo_ext 200 ?op] c b'
  have "\<forall>b\<in>set (books (perform demo_ext 200 demo_db ?op)). engagement_inv b" by blast
  then have "list_all engagement_inv (books (perform demo_ext 200 demo_db ?op))"
    by (simp add: list_all_iff)
  with a b c d show ?thesis by blast
qed

text \<open>
  C6 as the spec states it fails: an admin can create a book with \<^verbatim>\<open>rating: 3\<close> and
  no ratings counted, and can set \<^verbatim>\<open>ratingCount: -1\<close> with an update; the schema has no
  validator on \<^verbatim>\<open>ratingCount\<close> and none that relates the two fields.
\<close>

theorem engagement_inv_counterexample:
  "list_all engagement_inv (books demo_db) \<and>
   \<not> list_all engagement_inv
       (books (perform demo_ext 200 demo_db
                 (Create (Some ''Bearer t1'') 9 (demo_body\<lparr>b_rating := Some 3\<rparr>)))) \<and>
   \<not> list_all engagement_inv
       (books (perform demo_ext 200 demo_db
                 (Update (Some ''Bearer t1'') (Some 8) (demo_body\<lparr>b_ratingCount := Some (- 1)\<rparr>))))"
proof -
  have "list_all engagement_inv (books demo_db)" by code_simp
  moreover have "\<not> list_all engagement_inv
       (books (perform demo_ext 200 demo_db
                 (Create (Some ''Bearer t1'') 9 (demo_body\<lparr>b_rating := Some 3\<rparr>))))"
    by code_simp
  moreover have "\<not> list_all engagement_inv
       (books (perform demo_ext 200 demo_db
                 (Update (Some ''Bearer t1'') (Some 8) (demo_body\<lparr>b_ratingCount := Some (- 1)\<rparr>))))"
    by code_simp
  ultimately show ?thesis by blast
qed

section \<open>Concurrent requests\<close>

text \<open>
  A request served alone is the schedule that gives it both steps in a row.
\<close>

lemma serial_schedule_is_handler:
  "run_schedule ext now [0, 0] (d, [Waiting h idp body]) =
     (snd (recordRating ext now d h idp body), [Finished (fst (recordRating ext now d h idp body))])"
proof (cases "rate_load ext d h idp body")
  case (Inl e)
  then show ?thesis by (simp add: recordRating_def)
next
  case (Inr p)
  obtain b r where p: "p = (b, r)" by (cases p)
  obtain resp d' where s: "rate_save now d b r = (resp, d')" by (cases "rate_save now d b r")
  show ?thesis using Inr p s by (simp add: recordRating_def)
qed

text \<open>
  Marking a book as read is one atomic \<^verbatim>\<open>$inc\<close> on the stored document, so requests
  served concurrently act on the book as the same requests served in some order:
  \<open>n\<close> successful requests add exactly \<open>n\<close> to \<^verbatim>\<open>readCount\<close>.
\<close>

lemma findUserById_update_first:
  assumes "\<And>x. user_id (f x) = user_id x"
  shows "findUserById (update_first (\<lambda>x. user_id x = i) f us) j =
           (if j = i then map_option f (findUserById us i) else findUserById us j)"
proof (cases "j = i")
  case True
  then show ?thesis
    unfolding findUserById_def using assms by (simp add: find_update_first)
next
  case False
  have "find (\<lambda>b. user_id b = j) (update_first (\<lambda>x. user_id x = i) f us) =
          find (\<lambda>b. user_id b = j) us"
    using assms False by (induction us) auto
  with False show ?thesis by (simp add: findUserById_def)
qed

lemma protect_after_read:
  assumes "protect ext us h = Inr u"
  shows "\<exists>u'. protect ext (update_first (\<lambda>x. user_id x = k) (\<lambda>x. x\<lparr>readBooks := g x\<rparr>) us) h = Inr u'"
  using assms
  by (auto simp: protect_def findUserById_update_first split: option.splits if_splits)

lemma read_times_count:
  assumes "protect ext (users d) h = Inr u" and "findById (books d) i = Some b"
    and "read_times ext now d h (Some i) n = (resps, d')"
  shows "\<exists>b'. findById (books d') i = Some b' \<and> readCount b' = readCount b + of_nat n \<and>
              length resps = n \<and> (\<forall>x\<in>set resps. isl x = False)"
  using assms
proof (induction n arbitrary: d u b resps)
  case 0
  then show ?case by simp
next
  case (Suc n)
  let ?d1 = "d\<lparr>books := inc_readCount now (books d) i,
              users := update_first (\<lambda>x. user_id x = user_id u)
                         (\<lambda>x. x\<lparr>readBooks := addToSet i (readBooks x)\<rparr>) (users d)\<rparr>"
  have step: "recordRead ext now d h (Some i) = (Inr (readCount b + 1), ?d1)"
    using Suc.prems(1,2) by (simp add: recordRead_def)
  obtain resps' where run': "read_times ext now ?d1 h (Some i) n = (resps', d')"
    and resps: "resps = Inr (readCount b + 1) # resps'"
    using Suc.prems(3) step by (auto split: prod.splits)
  obtain u' where auth1: "protect ext (users ?d1) h = Inr u'"
    using protect_after_read[OF Suc.prems(1), where k = "user_id u"
        and g = "\<lambda>x. addToSet i (readBooks x)"] by auto
  have found1: "findById (books ?d1) i = Some (b\<lparr>readCount := readCount b + 1, updatedAt := now\<rparr>)"
    using Suc.prems(2) by (simp add: inc_readCount_def findById_update_first)
  from Suc.IH[OF auth1 found1 run']
  obtain b' where "findById (books d') i = Some b'" "readCount b' = readCount b + 1 + of_nat n"
    "length resps' = n" "\<forall>x\<in>set resps'. isl x = False"
    by auto
  then show ?case using resps by auto
qed

text \<open>
  C5 at two rating requests (5 and 1) for an unrated book, served concurrently with
  both \<^verbatim>\<open>findById\<close> before both \<^verbatim>\<open>save\<close>: both requests succeed, and the book ends
  with rating 1 and \<^verbatim>\<open>ratingCount\<close> 1, the first rating lost. Served one after the other
  the same requests leave rating 3 and \<^verbatim>\<open>ratingCount\<close> 2.
\<close>

theorem concurrent_ratings_lost_update:
  "snd (run_schedule demo_ext 200 [0, 1, 0, 1]
         (demo_db, [Waiting (Some ''Bearer t1'') (Some 7) (Some 5),
                    Waiting (Some ''Bearer t2'') (Some 7) (Some 1)])) =
     [Finished (Inr (5, 1)), Finished (Inr (1, 1))] \<and>
   map_option (\<lambda>x. (rating x, ratingCount x))
     (findById (books (fst (run_schedule demo_ext 200 [0, 1, 0, 1]
         (demo_db, [Waiting (Some ''Bearer t1'') (Some 7) (Some 5),
                    Waiting (Some ''Bearer t2'') (Some 7) (Some 1)])))) 7) = Some (1, 1) \<and>
   map_option (\<lambda>x. (rating x, ratingCount x))
     (findById (books (fst (run_schedule demo_ext 200 [0, 0, 1, 1]
         (demo_db, [Waiting (Some ''Bearer t1'') (Some 7) (Some 5),
                    Waiting (Some ''Bearer t2'') (Some 7) (Some 1)])))) 7) = Some (3, 2)"
proof -
  let ?ts = "[Waiting (Some ''Bearer t1'') (Some 7) (Some 5),
              Waiting (Some ''Bearer t2'') (Some 7) (Some 1)]"
  have "snd (run_schedule demo_ext 200 [0, 1, 0, 1] (demo_db, ?ts)) =
          [Finished (Inr (5, 1)), Finished (Inr (1, 1))]" by code_simp
  moreover have "map_option (\<lambda>x. (rating x, ratingCount x))
     (findById (books (fst (run_schedule demo_ext 200 [0, 1, 0, 1] (demo_db, ?ts)))) 7) =
       Some (1, 1)" by code_simp
  moreover have "map_option (\<lambda>x. (rating x, ratingCount x))
     (findById (books (fst (run_schedule demo_ext 200 [0, 0, 1, 1] (demo_db, ?ts)))) 7) =
       Some (3, 2)" by code_simp
  ultimately show ?thesis by blast
qed

end
